theory Spec2Isabelle
  imports Main "HOL-Library.Sublist"
begin

section \<open>Strings and JavaScript truthiness\<close>

text \<open>
  A JavaScript string is modelled as a \<open>string\<close>, one \<open>char\<close> per UTF-16 code unit, so
  \<open>length\<close> is the \<open>.length\<close> of the source. A \<open>char\<close> has eight bits: the model covers the
  code units below 256 (ASCII and Latin-1); texts with larger code units are outside it.
  A value that may be \<open>null\<close> or \<open>undefined\<close> is an \<open>option\<close>.
\<close>

definition js_not_str :: "string option \<Rightarrow> bool" where
  \<comment> \<open>\<open>!s\<close> for a string or null: null and the empty string are falsy.\<close>
  "js_not_str s = (case s of None \<Rightarrow> True | Some t \<Rightarrow> t = [])"

definition js_not_obj :: "'a option \<Rightarrow> bool" where
  \<comment> \<open>\<open>!x\<close> for an object or array or null: every object, also the empty array, is truthy.\<close>
  "js_not_obj x = (case x of None \<Rightarrow> True | Some _ \<Rightarrow> False)"

definition toLowerCase_char :: "char \<Rightarrow> char" where
  \<comment> \<open>The Unicode lower-case mapping on the code units below 256: A-Z, and the Latin-1
      capitals U+00C0..U+00DE without the multiplication sign U+00D7.\<close>
  "toLowerCase_char c =
     (let n = (of_char c :: nat)
      in if (65 \<le> n \<and> n \<le> 90) \<or> (192 \<le> n \<and> n \<le> 222 \<and> n \<noteq> 215)
         then char_of (n + 32) else c)"

definition toLowerCase :: "string \<Rightarrow> string" where
  "toLowerCase s = map toLowerCase_char s"

definition is_js_space :: "char \<Rightarrow> bool" where
  \<comment> \<open>The white space and line terminators that \<open>String.prototype.trim\<close> removes, below 256:
      TAB, LF, VT, FF, CR, SP and NBSP.\<close>
  "is_js_space c = ((of_char c :: nat) \<in> {9, 10, 11, 12, 13, 32, 160})"

definition trim :: "string \<Rightarrow> string" where
  "trim s = rev (dropWhile is_js_space (rev (dropWhile is_js_space s)))"

fun includes_str :: "string \<Rightarrow> string \<Rightarrow> bool" where
  \<comment> \<open>\<open>s.includes(q)\<close>: \<open>q\<close> occurs in \<open>s\<close> as a contiguous substring.\<close>
  "includes_str [] q = (q = [])"
| "includes_str (c # cs) q = (prefix q (c # cs) \<or> includes_str cs q)"

section \<open>The vocabulary record (types/vocabulary.ts)\<close>

record VocabularyExample =
  korean :: string
  bangla :: string

record VerbForms =
  present :: string
  past :: string
  future :: string
  polite :: string

text \<open>
  \<open>explanation\<close> and \<open>examples\<close> are declared non-null in the interface, but every reader
  of a record tests them with \<open>!\<close> first (rows come from the store untyped), so they are
  options here as well.
\<close>

record Vocabulary =
  vocab_id :: string
  korean_word :: string
  bangla_meaning :: string
  romanization :: "string option"
  part_of_speech :: "string option"
  explanation :: "string option"
  examples :: "VocabularyExample list option"
  themes :: "string list option"
  chapters :: "int list option"
  verb_forms :: "VerbForms option"

section \<open>Field-completeness tests\<close>

text \<open>The tests of the single fields, as the filters and the badges of both studios write them.\<close>

definition noVerbForms_if_verb :: "Vocabulary \<Rightarrow> bool" where
  \<comment> \<open>\<open>v.part_of_speech === "verb" && !v.verb_forms\<close>\<close>
  "noVerbForms_if_verb v = (part_of_speech v = Some ''verb'' \<and> js_not_obj (verb_forms v))"

definition noExamples :: "Vocabulary \<Rightarrow> bool" where
  \<comment> \<open>\<open>!v.examples || v.examples.length === 0\<close>\<close>
  "noExamples v = (case examples v of None \<Rightarrow> True | Some xs \<Rightarrow> length xs = 0)"

definition noExplanation :: "Vocabulary \<Rightarrow> bool" where
  \<comment> \<open>\<open>!v.explanation || v.explanation.length < 50\<close>\<close>
  "noExplanation v = (case explanation v of None \<Rightarrow> True | Some s \<Rightarrow> s = [] \<or> length s < 50)"

definition noRomanization :: "Vocabulary \<Rightarrow> bool" where
  "noRomanization v = js_not_str (romanization v)"

definition noPos :: "Vocabulary \<Rightarrow> bool" where
  "noPos v = js_not_str (part_of_speech v)"

definition noThemes :: "Vocabulary \<Rightarrow> bool" where
  \<comment> \<open>\<open>!v.themes || v.themes.length === 0\<close>\<close>
  "noThemes v = (case themes v of None \<Rightarrow> True | Some xs \<Rightarrow> length xs = 0)"

definition noChapters :: "Vocabulary \<Rightarrow> bool" where
  "noChapters v = (case chapters v of None \<Rightarrow> True | Some xs \<Rightarrow> length xs = 0)"

subsection \<open>OpenAiStudio.tsx: hasMissingFields\<close>

definition missing_openai :: "Vocabulary \<Rightarrow> string list" where
  \<comment> \<open>The array \<open>missing\<close> that \<open>hasMissingFields\<close> fills, in push order.\<close>
  "missing_openai vocab =
     (if part_of_speech vocab = Some ''verb'' \<and> js_not_obj (verb_forms vocab)
      then [''verb_forms''] else []) @
     (if noExplanation vocab then [''explanation''] else []) @
     (if noExamples vocab then [''examples''] else [])"

definition hasMissingFields_openai :: "Vocabulary \<Rightarrow> bool" where
  "hasMissingFields_openai vocab = (length (missing_openai vocab) > 0)"

subsection \<open>GeminiStudio.tsx: hasMissingFields\<close>

text \<open>
  The source writes the explanation test as
  \<open>!vocab.explanation || (vocab.explanation && vocab.explanation.length < 50)\<close>, which is
  the test of \<open>noExplanation\<close>.
\<close>

definition hasMissingFields_gemini :: "Vocabulary \<Rightarrow> bool" where
  "hasMissingFields_gemini vocab =
     (let isVerb = (part_of_speech vocab = Some ''verb'');
          noVerbForms = (if isVerb then js_not_obj (verb_forms vocab) else False)
      in noVerbForms \<or> noExamples vocab \<or> noExplanation vocab \<or> noRomanization vocab \<or>
         noPos vocab \<or> noThemes vocab)"

subsection \<open>Dashboard (fetchStats): the incomplete count\<close>

text \<open>
  The source writes the examples test as
  \<open>!v.examples || (Array.isArray(v.examples) && v.examples.length === 0)\<close>; on a record
  whose examples are a list or null this is the test of \<open>noExamples\<close>.
\<close>

definition incomplete_dashboard :: "Vocabulary \<Rightarrow> bool" where
  "incomplete_dashboard v =
     (let noExpl = noExplanation v;
          noEx = noExamples v;
          noVerb = (part_of_speech v = Some ''verb'' \<and> js_not_obj (verb_forms v))
      in noExpl \<or> noEx \<or> noVerb)"

definition incompleteCount :: "Vocabulary list \<Rightarrow> nat" where
  "incompleteCount allVocabData = length (filter incomplete_dashboard allVocabData)"

section \<open>filterVocabularies\<close>

datatype FilterType =
    All | MissingAllFields | MissingRomanization | MissingPos | MissingExplanation
  | MissingExamples | MissingThemes | MissingChapters | MissingVerb | MissingId

record studio_state =
  vocabularies :: "Vocabulary list"
  searchQuery :: string
  filterType :: FilterType
  filterPos :: string

definition search_step :: "studio_state \<Rightarrow> Vocabulary list \<Rightarrow> Vocabulary list" where
  \<comment> \<open>\<open>if (searchQuery.trim()) \<dots>\<close>: the query is lower-cased but not trimmed.\<close>
  "search_step st filtered =
     (if trim (searchQuery st) \<noteq> []
      then (let query = toLowerCase (searchQuery st)
            in filter (\<lambda>v. includes_str (toLowerCase (korean_word v)) query \<or>
                            includes_str (toLowerCase (bangla_meaning v)) query) filtered)
      else filtered)"

definition pos_step :: "studio_state \<Rightarrow> Vocabulary list \<Rightarrow> Vocabulary list" where
  "pos_step st filtered =
     (if filterPos st \<noteq> ''all''
      then filter (\<lambda>v. part_of_speech v = Some (filterPos st)) filtered
      else filtered)"

definition all_fields_missing_openai :: "Vocabulary \<Rightarrow> bool" where
  \<comment> \<open>The predicate of the "missing-all-fields" branch of OpenAiStudio.tsx.\<close>
  "all_fields_missing_openai v =
     (let isVerb = (part_of_speech v = Some ''verb'');
          noVerbForms = (if isVerb then js_not_obj (verb_forms v) else True)
      in noVerbForms \<and> noExamples v \<and> noExplanation v \<and> noRomanization v \<and> noThemes v)"

definition mode_openai :: "FilterType \<Rightarrow> Vocabulary \<Rightarrow> bool" where
  \<comment> \<open>The if/else-if chain of OpenAiStudio.tsx; a mode without a branch filters nothing.\<close>
  "mode_openai ft v =
     (if ft = MissingVerb then noVerbForms_if_verb v
      else if ft = MissingExamples then noExamples v
      else if ft = MissingExplanation then noExplanation v
      else if ft = MissingRomanization then noRomanization v
      else if ft = MissingPos then noPos v
      else if ft = MissingThemes then noThemes v
      else if ft = MissingChapters then noChapters v
      else if ft = MissingAllFields then all_fields_missing_openai v
      else if ft = All then hasMissingFields_openai v
      else True)"

definition mode_gemini :: "FilterType \<Rightarrow> Vocabulary \<Rightarrow> bool" where
  \<comment> \<open>The if/else-if chain of GeminiStudio.tsx: no branch for "missing-chapters", and
      "missing-all-fields" calls \<open>hasMissingFields\<close> as "all" does.\<close>
  "mode_gemini ft v =
     (if ft = MissingVerb then noVerbForms_if_verb v
      else if ft = MissingExamples then noExamples v
      else if ft = MissingExplanation then noExplanation v
      else if ft = MissingRomanization then noRomanization v
      else if ft = MissingId then (vocab_id v = [] \<or> vocab_id v = ''NaN'')
      else if ft = MissingPos then noPos v
      else if ft = MissingThemes then noThemes v
      else if ft = MissingAllFields then hasMissingFields_gemini v
      else if ft = All then hasMissingFields_gemini v
      else True)"

definition filterVocabularies_openai :: "studio_state \<Rightarrow> Vocabulary list" where
  "filterVocabularies_openai st =
     filter (mode_openai (filterType st)) (pos_step st (search_step st (vocabularies st)))"

definition filterVocabularies_gemini :: "studio_state \<Rightarrow> Vocabulary list" where
  "filterVocabularies_gemini st =
     filter (mode_gemini (filterType st)) (pos_step st (search_step st (vocabularies st)))"

section \<open>Blog posts: generateSlug and handleSubmit\<close>

definition is_slug_char :: "char \<Rightarrow> bool" where
  \<comment> \<open>The character class \<open>[a-z0-9]\<close>.\<close>
  "is_slug_char c =
     (let n = (of_char c :: nat) in (97 \<le> n \<and> n \<le> 122) \<or> (48 \<le> n \<and> n \<le> 57))"

text \<open>
  \<open>.replace(/[^a-z0-9]+/g, '-')\<close>: scanning from the left, every maximal run of characters
  outside the class is replaced by one hyphen.
\<close>

function replace_non_alnum_runs :: "string \<Rightarrow> string" where
  "replace_non_alnum_runs [] = []"
| "replace_non_alnum_runs (c # cs) =
     (if is_slug_char c then c # replace_non_alnum_runs cs
      else CHR ''-'' # replace_non_alnum_runs (dropWhile (\<lambda>d. \<not> is_slug_char d) cs))"
  by pat_completeness auto
termination
  by (relation "measure length") (auto intro: le_imp_less_Suc length_dropWhile_le)

text \<open>
  \<open>.replace(/(^-|-$)/g, '')\<close>: without the multi-line flag \<open>^\<close> matches at index 0 only and
  \<open>$\<close> at the end only, so at most the first and the last character are removed; a lone
  hyphen is consumed by the first alternative.
\<close>

definition strip_edge_hyphens :: "string \<Rightarrow> string" where
  "strip_edge_hyphens s =
     (let s1 = (case s of [] \<Rightarrow> [] | c # cs \<Rightarrow> if c = CHR ''-'' then cs else s)
      in if s1 \<noteq> [] \<and> last s1 = CHR ''-'' then butlast s1 else s1)"

definition generateSlug :: "string \<Rightarrow> string" where
  "generateSlug t = strip_edge_hyphens (replace_non_alnum_runs (toLowerCase t))"

fun split_on :: "char \<Rightarrow> string \<Rightarrow> string list" where
  \<comment> \<open>\<open>s.split(d)\<close> for a one-character separator: the empty string gives one empty piece.\<close>
  "split_on d [] = [[]]"
| "split_on d (c # cs) =
     (if c = d then [] # split_on d cs
      else (case split_on d cs of [] \<Rightarrow> [[c]] | w # ws \<Rightarrow> (c # w) # ws))"

definition or_null :: "string \<Rightarrow> string option" where
  \<comment> \<open>\<open>s || null\<close> for a string \<open>s\<close>\<close>
  "or_null s = (if s \<noteq> [] then Some s else None)"

record blog_form =
  form_title :: string
  form_slug :: string
  form_content :: string
  form_thumbnail_url :: string
  form_category :: string
  form_tags :: string

record blog_payload =
  payload_title :: string
  payload_slug :: string
  payload_content :: string
  payload_thumbnail_url :: "string option"
  payload_category :: "string option"
  payload_tags :: "string list option"

definition blog_payload_of :: "blog_form \<Rightarrow> blog_payload" where
  "blog_payload_of formData =
     \<lparr>payload_title = form_title formData,
      payload_slug = (if form_slug formData \<noteq> [] then form_slug formData
                      else generateSlug (form_title formData)),
      payload_content = form_content formData,
      payload_thumbnail_url = or_null (form_thumbnail_url formData),
      payload_category = or_null (form_category formData),
      payload_tags = (if form_tags formData \<noteq> []
                      then Some (map trim (split_on (CHR '','') (form_tags formData)))
                      else None)\<rparr>"

text \<open>The request a submit sends to the store: an update by primary key when an item is
  being edited, an insert otherwise.\<close>

datatype ('k, 'p) store_request = Update 'k 'p | Insert 'p

definition handleSubmit_blog ::
  "int option \<Rightarrow> blog_form \<Rightarrow> (int, blog_payload) store_request" where
  "handleSubmit_blog editingItem formData =
     (let payload = blog_payload_of formData
      in case editingItem of Some item_id \<Rightarrow> Update item_id payload | None \<Rightarrow> Insert payload)"

section \<open>Vocabulary form: handleSubmit\<close>

text \<open>
  \<open>parseInt(s)\<close> without a radix: leading white space is skipped, then an optional sign, then
  a \<open>0x\<close>/\<open>0X\<close> prefix selects radix 16, then the longest prefix of digits is read; no digit
  gives NaN (\<open>None\<close>). The value is an exact integer here; the source's numbers are doubles,
  which agree with it below \<open>2^53\<close>. Minus zero is \<open>0\<close>.
\<close>

definition digit_value :: "char \<Rightarrow> nat option" where
  "digit_value c =
     (let n = (of_char c :: nat)
      in if 48 \<le> n \<and> n \<le> 57 then Some (n - 48)
         else if 97 \<le> n \<and> n \<le> 122 then Some (n - 87)
         else if 65 \<le> n \<and> n \<le> 90 then Some (n - 55)
         else None)"

definition is_radix_digit :: "nat \<Rightarrow> char \<Rightarrow> bool" where
  "is_radix_digit R c = (case digit_value c of None \<Rightarrow> False | Some d \<Rightarrow> d < R)"

definition radix_value :: "nat \<Rightarrow> string \<Rightarrow> int" where
  "radix_value R Z = foldl (\<lambda>acc c. acc * int R + int (the (digit_value c))) 0 Z"

definition parseInt :: "string \<Rightarrow> int option" where
  "parseInt inputString =
     (let S = dropWhile is_js_space inputString;
          sign = (case S of [] \<Rightarrow> 1 | c # _ \<Rightarrow> if c = CHR ''-'' then - 1 else (1::int));
          S1 = (case S of [] \<Rightarrow> [] | c # cs \<Rightarrow> if c = CHR ''+'' \<or> c = CHR ''-'' then cs else S);
          hex = (case S1 of a # b # _ \<Rightarrow> a = CHR ''0'' \<and> (b = CHR ''x'' \<or> b = CHR ''X'')
                 | _ \<Rightarrow> False);
          R = (if hex then 16 else 10);
          S2 = (if hex then drop 2 S1 else S1);
          Z = takeWhile (is_radix_digit R) S2
      in if Z = [] then None else Some (sign * radix_value R Z))"

definition Boolean_num :: "int option \<Rightarrow> bool" where
  \<comment> \<open>\<open>Boolean(x)\<close> for a number or null: null and zero are falsy.\<close>
  "Boolean_num x = (case x of None \<Rightarrow> False | Some n \<Rightarrow> n \<noteq> 0)"

definition parse_chapters :: "string \<Rightarrow> int list option" where
  \<comment> \<open>\<open>chapters ? chapters.split(',').map(c => \<dots>).filter(Boolean) : null\<close>\<close>
  "parse_chapters chaptersText =
     (if chaptersText \<noteq> []
      then Some (map the (filter Boolean_num
             (map (\<lambda>c. parseInt (trim c)) (split_on (CHR '','') chaptersText))))
      else None)"

record vocabulary_form =
  koreanWord :: string
  banglaMeaning :: string
  romanizationText :: string
  partOfSpeech :: string
  explanationText :: string
  exampleRows :: "VocabularyExample list"
  selectedThemes :: "string list"
  chaptersText :: string
  verbForms :: VerbForms

record vocabulary_payload =
  payload_korean_word :: string
  payload_bangla_meaning :: string
  payload_romanization :: "string option"
  payload_part_of_speech :: "string option"
  payload_explanation :: string
  payload_examples :: "VocabularyExample list"
  payload_themes :: "string list option"
  payload_chapters :: "int list option"
  payload_verb_forms :: "VerbForms option"

definition vocabulary_payload_of :: "vocabulary_form \<Rightarrow> vocabulary_payload" where
  "vocabulary_payload_of f =
     \<lparr>payload_korean_word = koreanWord f,
      payload_bangla_meaning = banglaMeaning f,
      payload_romanization = or_null (romanizationText f),
      payload_part_of_speech = or_null (partOfSpeech f),
      payload_explanation = explanationText f,
      payload_examples = filter (\<lambda>ex. trim (korean ex) \<noteq> []) (exampleRows f),
      payload_themes = (if length (selectedThemes f) > 0 then Some (selectedThemes f) else None),
      payload_chapters = parse_chapters (chaptersText f),
      payload_verb_forms = (if partOfSpeech f = ''verb'' then Some (verbForms f) else None)\<rparr>"

definition handleSubmit_vocabulary ::
  "int option \<Rightarrow> vocabulary_form \<Rightarrow> (int, vocabulary_payload) store_request" where
  "handleSubmit_vocabulary editingItem f =
     (let payload = vocabulary_payload_of f
      in case editingItem of Some item_id \<Rightarrow> Update item_id payload | None \<Rightarrow> Insert payload)"

section \<open>Cleanup of an AI response\<close>

text \<open>
  \<open>s.replace(/pat/g, "")\<close> for a literal, non-empty pattern: the leftmost occurrence is
  removed and the scan goes on behind it.
\<close>

function remove_all :: "string \<Rightarrow> string \<Rightarrow> string" where
  "remove_all pat [] = []"
| "remove_all pat (c # cs) =
     (if pat \<noteq> [] \<and> prefix pat (c # cs) then remove_all pat (drop (length pat) (c # cs))
      else c # remove_all pat cs)"
  by pat_completeness auto
termination
  by (relation "measure (\<lambda>(pat, s). length s)") auto

definition fence_mark :: string where
  \<comment> \<open>three backticks\<close>
  "fence_mark = [CHR 0x60, CHR 0x60, CHR 0x60]"

definition fence_json :: string where
  \<comment> \<open>three backticks and the word json\<close>
  "fence_json = fence_mark @ ''json''"

definition cleanup :: "string \<Rightarrow> string" where
  \<comment> \<open>\<open>content.replace(/\<dots>json/g, '').replace(/\<dots>/g, '').trim()\<close>, in enhanceVocabulary
      and in both handlers of GeminiStudio.tsx\<close>
  "cleanup s = trim (remove_all fence_mark (remove_all fence_json s))"

definition fenced :: "string \<Rightarrow> string" where
  \<comment> \<open>A text as a markdown code block: the opening fence with the language tag, a line
      feed, the text, a line feed, the closing fence.\<close>
  "fenced t = fence_json @ [CHR 0x0A] @ t @ [CHR 0x0A] @ fence_mark"

text \<open>
  \<open>JSON.parse\<close> belongs to the runtime. The part of it read here: a text that is one string
  literal without escape sequences, with JSON white space around it, has the characters
  between the quotes as its value. Every other text is outside this reader (\<open>None\<close>).
\<close>

definition is_json_space :: "char \<Rightarrow> bool" where
  "is_json_space c = ((of_char c :: nat) \<in> {9, 10, 13, 32})"

definition json_string_literal :: "string \<Rightarrow> string option" where
  "json_string_literal s =
     (case dropWhile is_json_space s of
        [] \<Rightarrow> None
      | q # r \<Rightarrow>
          if q \<noteq> CHR 0x22 then None
          else (let body = takeWhile (\<lambda>c. c \<noteq> CHR 0x22) r;
                    rest = drop (length body) r
                in if rest \<noteq> [] \<and> list_all is_json_space (tl rest) \<and>
                      list_all (\<lambda>c. c \<noteq> CHR 0x5C \<and> (of_char c :: nat) \<ge> 32) body
                   then Some body else None))"

text \<open>
  What the comparison of two parses needs of \<open>JSON.parse\<close>, whatever the values are. By
  the JSON grammar a text is a value with optional white space (tab, line feed, carriage
  return, space) on both sides, and a value starts and ends with a character that is no
  white space of any kind (a bracket, a brace, a quote, a digit, a minus sign or a letter of
  \<open>true\<close>, \<open>false\<close>, \<open>null\<close>). So for every text the parser accepts, the text without the
  JSON white space around it is not empty, starts and ends with a character that \<open>trim\<close>
  keeps, and has the same value. \<open>json_trim\<close> removes the JSON white space on both sides.
\<close>

definition json_trim :: "string \<Rightarrow> string" where
  "json_trim s = rev (dropWhile is_json_space (rev (dropWhile is_json_space s)))"

definition reads_json_texts :: "(string \<Rightarrow> 'v option) \<Rightarrow> bool" where
  "reads_json_texts parse =
     (\<forall>u. parse u \<noteq> None \<longrightarrow>
            parse (json_trim u) = parse u \<and> json_trim u \<noteq> [] \<and>
            \<not> is_js_space (hd (json_trim u)) \<and> \<not> is_js_space (last (json_trim u)))"

section \<open>Paginated full-table fetch\<close>

text \<open>
  \<open>fetchResources\<close>, \<open>fetchBlogs\<close>, \<open>fetchVocabulary\<close> and the dashboard's \<open>fetchStats\<close> run the
  same loop; they differ in the table and the order of the query only, which are part of
  the range query here. A query answers with \<open>data\<close> and \<open>error\<close>. The loop has no bound of
  its own: against a store that keeps answering full pages it does not return, which is
  the value \<open>None\<close> of the model. \<open>Inl\<close> is the thrown error, which the caller's \<open>catch\<close>
  turns into a notification; \<open>Inr\<close> is the list handed to the state setter.
\<close>

record 'r query_result =
  q_data :: "'r list option"
  q_error :: "string option"

definition PAGE_SIZE :: nat where
  "PAGE_SIZE = 1000"

partial_function (option) fetch_pages ::
  "(nat \<Rightarrow> nat \<Rightarrow> 'r query_result) \<Rightarrow> 'r list \<Rightarrow> nat \<Rightarrow> nat \<Rightarrow> (string + 'r list) option" where
  "fetch_pages range_query allData from to =
     (let res = range_query from to
      in case q_error res of
           Some e \<Rightarrow> Some (Inl e)
         | None \<Rightarrow>
            (case q_data res of
               None \<Rightarrow> Some (Inr allData)
             | Some d \<Rightarrow>
                 if length d = 0 then Some (Inr allData)
                 else if length d < PAGE_SIZE then Some (Inr (allData @ d))
                 else fetch_pages range_query (allData @ d) (from + PAGE_SIZE) (to + PAGE_SIZE)))"

definition fetchAll :: "(nat \<Rightarrow> nat \<Rightarrow> 'r query_result) \<Rightarrow> (string + 'r list) option" where
  "fetchAll range_query = fetch_pages range_query [] 0 (PAGE_SIZE - 1)"

text \<open>
  Modelled from the spec: the range primitive of the hosted store, an external
  collaborator whose code is not part of the repository. Over a table that does not change
  during the fetch it answers with the rows at the offsets \<open>from\<close> to \<open>to\<close>, both included,
  in the order of the query, and with no error.
\<close>

definition table_range :: "'r list \<Rightarrow> nat \<Rightarrow> nat \<Rightarrow> 'r query_result" where
  "table_range rows from to =
     \<lparr>q_data = Some (take (to + 1 - from) (drop from rows)), q_error = None\<rparr>"

section \<open>Enhancement batch\<close>

datatype status = Pending | Processing | Success | Error

text \<open>
  A thrown value is an \<open>Error\<close> object with its message, or anything else (the error object
  a store client hands back need not be an \<open>Error\<close>).
\<close>

datatype thrown = ErrorObject string | NonError

definition error_message_of :: "thrown \<Rightarrow> string" where
  \<comment> \<open>\<open>error instanceof Error ? error.message : "Unknown error"\<close>\<close>
  "error_message_of t = (case t of ErrorObject m \<Rightarrow> m | NonError \<Rightarrow> ''Unknown error'')"

record 'j EnhancementResult =
  result_id :: string
  result_korean_word :: string
  result_status :: status
  result_error :: "string option"
  result_enhanced :: "'j option"

text \<open>
  The external collaborators of a batch, with \<open>'j\<close> the values of the JSON runtime. A call
  either throws (\<open>Inl\<close>) or answers. \<open>openai_chat\<close> is the chat-completions request of
  enhanceVocabulary: \<open>chat_ok\<close> is \<open>response.ok\<close>, \<open>chat_content\<close> the reading of
  \<open>data.choices[0].message.content\<close>. \<open>gemini_enhance\<close> is the request of the Gemini
  studio to its server (with the locally stored key as a header): \<open>gemini_data\<close> is the
  reading of \<open>result.data\<close>, a string or any other value (\<open>None\<close> is undefined).
  \<open>JSON_parse\<close> gives \<open>None\<close> where \<open>JSON.parse\<close> throws, \<open>array_items\<close> gives the elements
  where \<open>Array.isArray\<close> holds, and \<open>supabase_update id data\<close> is the update of the row
  \<open>id\<close>, answering with the store's error or a thrown value, if any. Each is a function
  of its arguments: within one batch every record is passed once.
\<close>

record chat_response =
  chat_ok :: bool
  chat_content :: "thrown + string"

datatype 'j response_data = DataString string | DataValue "'j option"

record 'j gemini_response =
  gemini_ok :: bool
  gemini_data :: "thrown + 'j response_data"

record 'j externals =
  VITE_OPENAI_API_KEY :: "string option"
  openai_chat :: "Vocabulary \<Rightarrow> string list option \<Rightarrow> thrown + chat_response"
  gemini_enhance :: "Vocabulary \<Rightarrow> string list option \<Rightarrow> thrown + 'j gemini_response"
  JSON_parse :: "string \<Rightarrow> 'j option"
  array_items :: "'j \<Rightarrow> 'j list option"
  supabase_update :: "string \<Rightarrow> 'j option \<Rightarrow> thrown option"

definition enhanceVocabulary ::
  "'j externals \<Rightarrow> Vocabulary \<Rightarrow> string list option \<Rightarrow> thrown + 'j" where
  "enhanceVocabulary ext vocab fieldsToEnhance =
     (if js_not_str (VITE_OPENAI_API_KEY ext) then Inl (ErrorObject ''OpenAI API Key not found'')
      else case openai_chat ext vocab fieldsToEnhance of
             Inl t \<Rightarrow> Inl t
           | Inr response \<Rightarrow>
               if \<not> chat_ok response then Inl (ErrorObject ''AI Enhancement failed'')
               else (case chat_content response of
                       Inl t \<Rightarrow> Inl t
                     | Inr content_text \<Rightarrow>
                         (case JSON_parse ext (cleanup content_text) of
                            None \<Rightarrow> Inl (ErrorObject ''AI returned invalid JSON'')
                          | Some result \<Rightarrow> Inr result)))"

definition fieldsToEnhance_of :: "string list \<Rightarrow> string list option" where
  \<comment> \<open>\<open>selectedFields.has("all") ? undefined : Array.from(selectedFields)\<close>, the set in
      insertion order\<close>
  "fieldsToEnhance_of selectedFields =
     (if ''all'' \<in> set selectedFields then None else Some selectedFields)"

datatype studio = OpenAiStudio | GeminiStudio

text \<open>
  The \<open>try\<close> block of one record: \<open>Inl\<close> is the value the \<open>catch\<close> receives, \<open>Inr\<close> the
  \<open>enhanced\<close> value the success branch stores in the result (the Gemini studio stores
  none).
\<close>

definition try_openai :: "'j externals \<Rightarrow> string list \<Rightarrow> Vocabulary \<Rightarrow> thrown + 'j option" where
  "try_openai ext selectedFields vocab =
     (case enhanceVocabulary ext vocab (fieldsToEnhance_of selectedFields) of
        Inl t \<Rightarrow> Inl t
      | Inr enhanced \<Rightarrow>
          (case supabase_update ext (vocab_id vocab) (Some enhanced) of
             Some updateError \<Rightarrow> Inl updateError
           | None \<Rightarrow> Inr (Some enhanced)))"

definition try_gemini :: "'j externals \<Rightarrow> string list \<Rightarrow> Vocabulary \<Rightarrow> thrown + 'j option" where
  "try_gemini ext selectedFields vocab =
     (case gemini_enhance ext vocab (fieldsToEnhance_of selectedFields) of
        Inl t \<Rightarrow> Inl t
      | Inr response \<Rightarrow>
          if \<not> gemini_ok response then Inl (ErrorObject ''Enhancement failed'')
          else (case gemini_data response of
                  Inl t \<Rightarrow> Inl t
                | Inr d \<Rightarrow>
                    (case (case d of
                             DataString s \<Rightarrow>
                               (case JSON_parse ext (cleanup s) of
                                  None \<Rightarrow> Inl (ErrorObject ''SyntaxError'')
                                | Some j \<Rightarrow> Inr (Some j))
                           | DataValue x \<Rightarrow> Inr x) of
                       Inl t \<Rightarrow> Inl t
                     | Inr enhanced \<Rightarrow>
                         (let finalData =
                                (case enhanced of
                                   None \<Rightarrow> None
                                 | Some j \<Rightarrow>
                                     (case array_items ext j of
                                        None \<Rightarrow> Some j
                                      | Some xs \<Rightarrow> (case xs of [] \<Rightarrow> None | x # _ \<Rightarrow> Some x)))
                          in case supabase_update ext (vocab_id vocab) finalData of
                               Some updateError \<Rightarrow> Inl updateError
                             | None \<Rightarrow> Inr None))))"

definition try_enhance ::
  "studio \<Rightarrow> 'j externals \<Rightarrow> string list \<Rightarrow> Vocabulary \<Rightarrow> thrown + 'j option" where
  "try_enhance s ext selectedFields vocab =
     (case s of OpenAiStudio \<Rightarrow> try_openai ext selectedFields vocab
              | GeminiStudio \<Rightarrow> try_gemini ext selectedFields vocab)"

definition delay_ms :: "studio \<Rightarrow> nat" where
  "delay_ms s = (case s of OpenAiStudio \<Rightarrow> 500 | GeminiStudio \<Rightarrow> 1000)"

definition caught_message :: "studio \<Rightarrow> thrown \<Rightarrow> string" where
  "caught_message s t = (case s of OpenAiStudio \<Rightarrow> error_message_of t | GeminiStudio \<Rightarrow> ''Failed'')"

text \<open>
  What a batch does to the outside, in order: the attempt on a record (by id), a
  suspension (in milliseconds), the cache invalidation, the closing summary with the
  success and error counts, and the notification of the early return. The notifications
  shown per record change nothing else and are left out. \<open>progress\<close> is the pair
  completed/total, of which the source shows the percentage.
\<close>

datatype effect = Enhance string | Sleep nat | InvalidateQueries | Summary nat nat | SelectToast

record 'j batch_state =
  isProcessing :: bool
  progress :: "nat \<times> nat"
  results :: "'j EnhancementResult list"
  successCount :: nat
  errorCount :: nat
  effects :: "effect list"

definition set_result ::
  "string \<Rightarrow> ('j EnhancementResult \<Rightarrow> 'j EnhancementResult) \<Rightarrow> 'j EnhancementResult list
     \<Rightarrow> 'j EnhancementResult list" where
  \<comment> \<open>\<open>prev.map(r => r.id === vocab.id ? { ...r, \<dots> } : r)\<close>\<close>
  "set_result i f prev = map (\<lambda>r. if result_id r = i then f r else r) prev"

definition loop_body ::
  "studio \<Rightarrow> 'j externals \<Rightarrow> string list \<Rightarrow> Vocabulary list \<Rightarrow> nat \<Rightarrow> 'j batch_state
     \<Rightarrow> 'j batch_state" where
  \<comment> \<open>One turn of the \<open>for\<close> loop, for an index below \<open>selected.length\<close>.\<close>
  "loop_body s ext selectedFields selected i st =
     (let vocab = selected ! i;
          st1 = st\<lparr>results := set_result (vocab_id vocab) (\<lambda>r. r\<lparr>result_status := Processing\<rparr>)
                                 (results st),
                   progress := (i, length selected),
                   effects := effects st @ [Enhance (vocab_id vocab)]\<rparr>;
          st2 = (case try_enhance s ext selectedFields vocab of
                   Inr enhanced \<Rightarrow>
                     st1\<lparr>results := set_result (vocab_id vocab)
                            (\<lambda>r. r\<lparr>result_status := Success,
                                    result_enhanced := enhanced\<rparr>) (results st1),
                         successCount := successCount st1 + 1\<rparr>
                 | Inl t \<Rightarrow>
                     st1\<lparr>results := set_result (vocab_id vocab)
                            (\<lambda>r. r\<lparr>result_status := Error,
                                    result_error := Some (caught_message s t)\<rparr>) (results st1),
                         errorCount := errorCount st1 + 1\<rparr>);
          st3 = st2\<lparr>progress := (i + 1, length selected)\<rparr>
      in if i < length selected - 1
         then st3\<lparr>effects := effects st3 @ [Sleep (delay_ms s)]\<rparr>
         else st3)"

function enhance_loop ::
  "studio \<Rightarrow> 'j externals \<Rightarrow> string list \<Rightarrow> Vocabulary list \<Rightarrow> nat \<Rightarrow> 'j batch_state
     \<Rightarrow> 'j batch_state" where
  "enhance_loop s ext selectedFields selected i st =
     (if i < length selected
      then enhance_loop s ext selectedFields selected (i + 1)
             (loop_body s ext selectedFields selected i st)
      else st)"
  by pat_completeness auto
termination
  by (relation "measure (\<lambda>(s, ext, selectedFields, selected, i, st). length selected - i)") auto

definition pending_result :: "Vocabulary \<Rightarrow> 'j EnhancementResult" where
  \<comment> \<open>\<open>{ id: v.id, korean_word: v.korean_word, status: "pending" }\<close>\<close>
  "pending_result v =
     \<lparr>result_id = vocab_id v, result_korean_word = korean_word v, result_status = Pending,
      result_error = None, result_enhanced = None\<rparr>"

definition handleEnhanceSelected ::
  "studio \<Rightarrow> 'j externals \<Rightarrow> string list \<Rightarrow> Vocabulary list \<Rightarrow> string set \<Rightarrow> 'j batch_state
     \<Rightarrow> 'j batch_state" where
  "handleEnhanceSelected s ext selectedFields vocabs selectedVocabs st =
     (if selectedVocabs = {} then st\<lparr>effects := effects st @ [SelectToast]\<rparr>
      else
        (let selected = filter (\<lambda>v. vocab_id v \<in> selectedVocabs) vocabs;
             st0 = st\<lparr>isProcessing := True, progress := (0, length selected),
                      results := map pending_result selected,
                      successCount := 0, errorCount := 0\<rparr>;
             st1 = enhance_loop s ext selectedFields selected 0 st0
         in st1\<lparr>isProcessing := False,
                effects := effects st1 @
                  [InvalidateQueries, Summary (successCount st1) (errorCount st1)]\<rparr>))"

text \<open>
  For the analysis of a batch: the result a record ends with, the schedule of attempts and
  suspensions that gives every record but the last a suspension, and the projections of a
  list of effects on its suspensions and on its attempts.
\<close>

definition final_result ::
  "studio \<Rightarrow> 'j externals \<Rightarrow> string list \<Rightarrow> Vocabulary \<Rightarrow> 'j EnhancementResult" where
  "final_result s ext selectedFields v =
     (case try_enhance s ext selectedFields v of
        Inr enhanced \<Rightarrow> (pending_result v)\<lparr>result_status := Success, result_enhanced := enhanced\<rparr>
      | Inl t \<Rightarrow> (pending_result v)\<lparr>result_status := Error,
                                     result_error := Some (caught_message s t)\<rparr>)"

definition finish_result ::
  "studio \<Rightarrow> thrown + 'j option \<Rightarrow> 'j EnhancementResult \<Rightarrow> 'j EnhancementResult" where
  \<comment> \<open>the update that the success branch or the catch branch applies to a result\<close>
  "finish_result s outcome r =
     (case outcome of
        Inr enhanced \<Rightarrow> r\<lparr>result_status := Success, result_enhanced := enhanced\<rparr>
      | Inl t \<Rightarrow> r\<lparr>result_status := Error, result_error := Some (caught_message s t)\<rparr>)"

fun schedule :: "nat \<Rightarrow> string list \<Rightarrow> effect list" where
  "schedule d [] = []"
| "schedule d [x] = [Enhance x]"
| "schedule d (x # y # ys) = Enhance x # Sleep d # schedule d (y # ys)"

fun sleeps :: "effect list \<Rightarrow> nat list" where
  "sleeps [] = []"
| "sleeps (Sleep d # es) = d # sleeps es"
| "sleeps (_ # es) = sleeps es"

fun attempts :: "effect list \<Rightarrow> string list" where
  "attempts [] = []"
| "attempts (Enhance x # es) = x # attempts es"
| "attempts (_ # es) = attempts es"

text \<open>
  The two ways in which the attempt on a record fails, read off the collaborators' answers.
  The enrichment fails when the OpenAI key is missing (OpenAI studio), the request throws,
  the response is not \<open>ok\<close>, its payload cannot be read, or the text it carries is not
  JSON after the cleanup. \<open>update_data\<close> is the value that an enrichment which answers hands
  to the store: the parsed content in the OpenAI studio; in the Gemini studio
  \<open>finalData\<close>, the first element when the value is an array. The store update fails when
  the enrichment has answered and the store answers the update of the record with an error.
  \<open>stored_enhanced\<close> is what a successful attempt leaves in the \<open>enhanced\<close> field of the
  result: the data in the OpenAI studio, nothing in the Gemini studio.
\<close>

definition enrichment_error :: "studio \<Rightarrow> 'j externals \<Rightarrow> string list \<Rightarrow> Vocabulary \<Rightarrow> bool" where
  "enrichment_error s ext selectedFields v =
     (case s of
        OpenAiStudio \<Rightarrow>
          js_not_str (VITE_OPENAI_API_KEY ext) \<or>
          (case openai_chat ext v (fieldsToEnhance_of selectedFields) of
             Inl t \<Rightarrow> True
           | Inr response \<Rightarrow>
               \<not> chat_ok response \<or>
               (case chat_content response of
                  Inl t \<Rightarrow> True
                | Inr content_text \<Rightarrow> JSON_parse ext (cleanup content_text) = None))
      | GeminiStudio \<Rightarrow>
          (case gemini_enhance ext v (fieldsToEnhance_of selectedFields) of
             Inl t \<Rightarrow> True
           | Inr response \<Rightarrow>
               \<not> gemini_ok response \<or>
               (case gemini_data response of
                  Inl t \<Rightarrow> True
                | Inr d \<Rightarrow>
                    (case d of
                       DataString str \<Rightarrow> JSON_parse ext (cleanup str) = None
                     | DataValue x \<Rightarrow> False))))"

definition update_data :: "studio \<Rightarrow> 'j externals \<Rightarrow> string list \<Rightarrow> Vocabulary \<Rightarrow> 'j option" where
  "update_data s ext selectedFields v =
     (case s of
        OpenAiStudio \<Rightarrow>
          (case openai_chat ext v (fieldsToEnhance_of selectedFields) of
             Inl t \<Rightarrow> None
           | Inr response \<Rightarrow>
               (case chat_content response of
                  Inl t \<Rightarrow> None
                | Inr content_text \<Rightarrow> JSON_parse ext (cleanup content_text)))
      | GeminiStudio \<Rightarrow>
          (case gemini_enhance ext v (fieldsToEnhance_of selectedFields) of
             Inl t \<Rightarrow> None
           | Inr response \<Rightarrow>
               (case gemini_data response of
                  Inl t \<Rightarrow> None
                | Inr d \<Rightarrow>
                    (case (case d of
                             DataString str \<Rightarrow> JSON_parse ext (cleanup str)
                           | DataValue x \<Rightarrow> x) of
                       None \<Rightarrow> None
                     | Some j \<Rightarrow>
                         (case array_items ext j of
                            None \<Rightarrow> Some j
                          | Some xs \<Rightarrow> (case xs of [] \<Rightarrow> None | x # _ \<Rightarrow> Some x))))))"

definition store_update_error ::
  "studio \<Rightarrow> 'j externals \<Rightarrow> string list \<Rightarrow> Vocabulary \<Rightarrow> bool" where
  "store_update_error s ext selectedFields v =
     (\<not> enrichment_error s ext selectedFields v \<and>
      supabase_update ext (vocab_id v) (update_data s ext selectedFields v) \<noteq> None)"

definition stored_enhanced :: "studio \<Rightarrow> 'j option \<Rightarrow> 'j option" where
  "stored_enhanced s d = (case s of OpenAiStudio \<Rightarrow> d | GeminiStudio \<Rightarrow> None)"

section \<open>The specification's wording, for comparison with the code\<close>

text \<open>
  The "missing-all-fields" mode as the specification words it: all of verb forms (when the
  part of speech is verb), examples, explanation, romanization and themes are missing.
\<close>

definition all_missing_spec :: "Vocabulary \<Rightarrow> bool" where
  "all_missing_spec v =
     ((part_of_speech v = Some ''verb'' \<longrightarrow> verb_forms v = None) \<and> noExamples v \<and>
      noExplanation v \<and> noRomanization v \<and> noThemes v)"

text \<open>
  The slug as the specification words it: the maximal runs of characters of \<open>[a-z0-9]\<close> in
  the lower-cased title, joined by single hyphens.
\<close>

function alnum_runs :: "string \<Rightarrow> string list" where
  "alnum_runs [] = []"
| "alnum_runs (c # cs) =
     (if is_slug_char c
      then (c # takeWhile is_slug_char cs) # alnum_runs (dropWhile is_slug_char cs)
      else alnum_runs cs)"
  by pat_completeness auto
termination
  by (relation "measure length") (auto intro: le_imp_less_Suc length_dropWhile_le)

fun join_hyphen :: "string list \<Rightarrow> string" where
  "join_hyphen [] = []"
| "join_hyphen [w] = w"
| "join_hyphen (w # ws) = w @ CHR ''-'' # join_hyphen ws"

definition slug_spec :: "string \<Rightarrow> string" where
  "slug_spec t = join_hyphen (alnum_runs (toLowerCase t))"

definition slug_word :: "string \<Rightarrow> bool" where
  "slug_word w = (w \<noteq> [] \<and> list_all is_slug_char w)"

section \<open>Example data\<close>

definition complete_noun :: Vocabulary where
  "complete_noun =
     \<lparr>vocab_id = ''1'', korean_word = ''k'', bangla_meaning = ''b'',
      romanization = Some ''r'', part_of_speech = Some ''noun'',
      explanation = Some (replicate 50 (CHR ''x'')),
      examples = Some [\<lparr>korean = ''a'', bangla = ''b''\<rparr>],
      themes = Some [''daily''], chapters = None, verb_forms = None\<rparr>"

definition bare_noun :: Vocabulary where
  "bare_noun =
     \<lparr>vocab_id = ''2'', korean_word = ''k'', bangla_meaning = ''b'',
      romanization = None, part_of_speech = Some ''noun'',
      explanation = Some ''short'', examples = Some [],
      themes = None, chapters = None, verb_forms = None\<rparr>"

definition quoted_fence :: string where
  \<comment> \<open>the JSON text of the string of three backticks\<close>
  "quoted_fence = [CHR 0x22] @ fence_mark @ [CHR 0x22]"

text \<open>The two halves of \<open>strip_edge_hyphens\<close>, for the proofs about slugs.\<close>

definition strip_lead :: "string \<Rightarrow> string" where
  "strip_lead s = (case s of [] \<Rightarrow> [] | c # cs \<Rightarrow> if c = CHR ''-'' then cs else s)"

definition strip_trail :: "string \<Rightarrow> string" where
  "strip_trail s = (if s \<noteq> [] \<and> last s = CHR ''-'' then butlast s else s)"

definition adjective_form :: vocabulary_form where
  "adjective_form =
     \<lparr>koreanWord = ''k'', banglaMeaning = ''b'', romanizationText = [],
      partOfSpeech = ''adjective'', explanationText = [],
      exampleRows = [\<lparr>korean = ''  '', bangla = ''x''\<rparr>, \<lparr>korean = '' a '', bangla = []\<rparr>],
      selectedThemes = [], chaptersText = ''0, 5'',
      verbForms = \<lparr>present = ''p'', past = ''q'', future = ''r'', polite = ''s''\<rparr>\<rparr>"

text \<open>A batch of three records with concrete collaborators.\<close>

definition demo_externals :: "string list \<Rightarrow> string list \<Rightarrow> string externals" where
  \<comment> \<open>Collaborators that answer every request with an empty JSON object, except that the
      enrichment of the records in \<open>unreachable\<close> throws and the store rejects the update of
      the records in \<open>rejected\<close>.\<close>
  "demo_externals unreachable rejected =
     \<lparr>VITE_OPENAI_API_KEY = Some ''key'',
      openai_chat = (\<lambda>v fields. if vocab_id v \<in> set unreachable
                       then Inl (ErrorObject ''Failed to fetch'')
                       else Inr \<lparr>chat_ok = True, chat_content = Inr ''{}''\<rparr>),
      gemini_enhance = (\<lambda>v fields. if vocab_id v \<in> set unreachable
                       then Inl (ErrorObject ''Failed to fetch'')
                       else Inr \<lparr>gemini_ok = True, gemini_data = Inr (DataString ''{}'')\<rparr>),
      JSON_parse = (\<lambda>text. Some text),
      array_items = (\<lambda>j. None),
      supabase_update = (\<lambda>i d. if i \<in> set rejected then Some NonError else None)\<rparr>"

definition demo_vocabularies :: "Vocabulary list" where
  "demo_vocabularies = [complete_noun, bare_noun, complete_noun\<lparr>vocab_id := ''3''\<rparr>]"

definition idle_state :: "string batch_state" where
  "idle_state =
     \<lparr>isProcessing = False, progress = (0, 0), results = [], successCount = 0,
      errorCount = 0, effects = []\<rparr>"

definition quoted_word :: string where
  \<comment> \<open>the JSON text of the string \<open>ok\<close>, with a space before it and a line feed behind\<close>
  "quoted_word = [CHR 0x20, CHR 0x22] @ ''ok'' @ [CHR 0x22, CHR 0x0A]"

text \<open>
  A selection of two records that carry the same id, with collaborators that tell them
  apart by the word: the enrichment of the words in \<open>unreachable\<close> throws, every other
  request is answered with an empty JSON object, and the store accepts every update.
\<close>

definition demo_externals_by_word :: "string list \<Rightarrow> string externals" where
  "demo_externals_by_word unreachable =
     \<lparr>VITE_OPENAI_API_KEY = Some ''key'',
      openai_chat = (\<lambda>v fields. if korean_word v \<in> set unreachable
                       then Inl (ErrorObject ''Failed to fetch'')
                       else Inr \<lparr>chat_ok = True, chat_content = Inr ''{}''\<rparr>),
      gemini_enhance = (\<lambda>v fields. if korean_word v \<in> set unreachable
                       then Inl (ErrorObject ''Failed to fetch'')
                       else Inr \<lparr>gemini_ok = True, gemini_data = Inr (DataString ''{}'')\<rparr>),
      JSON_parse = (\<lambda>text. Some text),
      array_items = (\<lambda>j. None),
      supabase_update = (\<lambda>i d. None)\<rparr>"

definition twin_vocabularies :: "Vocabulary list" where
  "twin_vocabularies = [complete_noun, complete_noun\<lparr>korean_word := ''k2''\<rparr>]"

lemmas field_tests =
  noVerbForms_if_verb_def noExamples_def noExplanation_def noRomanization_def noPos_def
  noThemes_def noChapters_def js_not_str_def js_not_obj_def

lemmas classifier_defs =
  hasMissingFields_openai_def missing_openai_def incomplete_dashboard_def
  hasMissingFields_gemini_def

section \<open>The completeness predicates\<close>

text \<open>
  Claim C1, as stated, fails twice. The default predicate of the OpenAI studio and of the
  dashboard depends on the part of speech: the complete noun below becomes incomplete when
  only its part of speech is set to verb. The default predicate of the Gemini studio also
  flags a record whose romanization, themes or part of speech alone is missing.
\<close>

theorem default_predicate_counterexample:
  "\<not> hasMissingFields_openai complete_noun \<and>
   hasMissingFields_openai (complete_noun\<lparr>part_of_speech := Some ''verb''\<rparr>) \<and>
   \<not> incomplete_dashboard complete_noun \<and>
   incomplete_dashboard (complete_noun\<lparr>part_of_speech := Some ''verb''\<rparr>) \<and>
   \<not> hasMissingFields_gemini complete_noun \<and>
   hasMissingFields_gemini (complete_noun\<lparr>romanization := None\<rparr>) \<and>
   hasMissingFields_gemini (complete_noun\<lparr>themes := None\<rparr>) \<and>
   hasMissingFields_gemini (complete_noun\<lparr>part_of_speech := None\<rparr>)"
  by (simp add: classifier_defs complete_noun_def field_tests)

text \<open>
  C1 (amended): in the OpenAI studio and on the dashboard a record is incomplete iff verb
  forms (for a verb), examples or explanation are missing; this is what the "all" mode
  filters by; it does not change when romanization and themes change, nor when the part of
  speech changes between two values that are both verb or both not verb. In the Gemini
  studio the "all" mode filters by the six tests: those three and missing romanization,
  part of speech and themes.
\<close>

theorem default_predicate_fields:
  "hasMissingFields_openai v = (noVerbForms_if_verb v \<or> noExamples v \<or> noExplanation v) \<and>
   incomplete_dashboard v = (noVerbForms_if_verb v \<or> noExamples v \<or> noExplanation v) \<and>
   mode_openai All v = hasMissingFields_openai v \<and>
   hasMissingFields_openai (v\<lparr>romanization := r, themes := t\<rparr>) = hasMissingFields_openai v \<and>
   incomplete_dashboard (v\<lparr>romanization := r, themes := t\<rparr>) = incomplete_dashboard v \<and>
   ((p = Some ''verb'') = (part_of_speech v = Some ''verb'') \<longrightarrow>
      hasMissingFields_openai (v\<lparr>part_of_speech := p\<rparr>) = hasMissingFields_openai v \<and>
      incomplete_dashboard (v\<lparr>part_of_speech := p\<rparr>) = incomplete_dashboard v) \<and>
   mode_gemini All v = hasMissingFields_gemini v \<and>
   hasMissingFields_gemini v =
     (noVerbForms_if_verb v \<or> noExamples v \<or> noExplanation v \<or> noRomanization v \<or> noPos v \<or>
      noThemes v)"
  by (auto simp add: classifier_defs mode_openai_def mode_gemini_def field_tests Let_def)

theorem default_predicate_fields_witness:
  "hasMissingFields_openai (complete_noun\<lparr>part_of_speech := Some ''adverb''\<rparr>) =
     hasMissingFields_openai complete_noun \<and>
   incomplete_dashboard (complete_noun\<lparr>part_of_speech := Some ''adverb''\<rparr>) =
     incomplete_dashboard complete_noun"
proof -
  have "(Some ''adverb'' = Some ''verb'') = (part_of_speech complete_noun = Some ''verb'')"
    by (simp add: complete_noun_def)
  with default_predicate_fields [of complete_noun None None "Some ''adverb''"]
  show ?thesis by blast
qed

text \<open>
  C2: the "missing-all-fields" mode of the Gemini studio departs from the claim. Its branch
  calls \<open>hasMissingFields\<close>, the disjunction that the "all" mode filters by, where the same
  mode of the OpenAI studio computes the conjunction and the option is labelled "All
  Missing": the mode keeps a record that lacks the romanization only, with examples,
  explanation and themes present.
\<close>

theorem gemini_missing_all_fields_keeps_partial_record:
  "filterVocabularies_gemini
     \<lparr>vocabularies = [complete_noun\<lparr>romanization := None\<rparr>], searchQuery = '''',
      filterType = MissingAllFields, filterPos = ''all''\<rparr>
     = [complete_noun\<lparr>romanization := None\<rparr>] \<and>
   \<not> noExamples (complete_noun\<lparr>romanization := None\<rparr>) \<and>
   \<not> noExplanation (complete_noun\<lparr>romanization := None\<rparr>) \<and>
   \<not> noThemes (complete_noun\<lparr>romanization := None\<rparr>)"
  by (simp add: filterVocabularies_gemini_def mode_gemini_def hasMissingFields_gemini_def
      search_step_def pos_step_def trim_def complete_noun_def field_tests)

text \<open>
  In the OpenAI studio the mode is as the claim states it: it selects, among the records
  that pass the search and part-of-speech filters, exactly those for which verb forms (for
  a verb), examples, explanation, romanization and themes are all missing; this implies
  the default incompleteness predicate of that studio and is not implied by it. In the
  Gemini studio the two modes are one predicate.
\<close>

lemma missing_all_fields_modes:
  "all_fields_missing_openai v = all_missing_spec v \<and>
   (filterType st = MissingAllFields \<longrightarrow>
      (v \<in> set (filterVocabularies_openai st)) =
      (v \<in> set (pos_step st (search_step st (vocabularies st))) \<and> all_missing_spec v)) \<and>
   (all_missing_spec v \<longrightarrow> hasMissingFields_openai v) \<and>
   (\<exists>w. hasMissingFields_openai w \<and> \<not> all_missing_spec w) \<and>
   mode_gemini MissingAllFields v = hasMissingFields_gemini v \<and>
   mode_gemini MissingAllFields v = mode_gemini All v"
proof -
  have a: "all_fields_missing_openai v = all_missing_spec v"
    by (auto simp add: all_fields_missing_openai_def all_missing_spec_def field_tests
        split: option.splits)
  have b: "filterType st = MissingAllFields \<longrightarrow>
      (v \<in> set (filterVocabularies_openai st)) =
      (v \<in> set (pos_step st (search_step st (vocabularies st))) \<and> all_missing_spec v)"
    using a by (auto simp add: filterVocabularies_openai_def mode_openai_def)
  have c: "all_missing_spec v \<longrightarrow> hasMissingFields_openai v"
    by (auto simp add: all_missing_spec_def hasMissingFields_openai_def missing_openai_def)
  have "hasMissingFields_openai (complete_noun\<lparr>examples := None\<rparr>) \<and>
        \<not> all_missing_spec (complete_noun\<lparr>examples := None\<rparr>)"
    by (simp add: all_missing_spec_def hasMissingFields_openai_def missing_openai_def
        complete_noun_def field_tests)
  then have d: "\<exists>w. hasMissingFields_openai w \<and> \<not> all_missing_spec w" by blast
  have e: "mode_gemini MissingAllFields v = hasMissingFields_gemini v"
          "mode_gemini MissingAllFields v = mode_gemini All v"
    by (simp_all add: mode_gemini_def)
  from a b c d e show ?thesis by blast
qed

lemma missing_all_fields_openai_example:
  "bare_noun \<in> set (filterVocabularies_openai
      \<lparr>vocabularies = [complete_noun, bare_noun], searchQuery = '''',
       filterType = MissingAllFields, filterPos = ''all''\<rparr>) \<and>
   hasMissingFields_openai bare_noun"
proof -
  let ?st = "\<lparr>vocabularies = [complete_noun, bare_noun], searchQuery = '''',
       filterType = MissingAllFields, filterPos = ''all''\<rparr>"
  have ft: "filterType ?st = MissingAllFields" by simp
  have m: "bare_noun \<in> set (pos_step ?st (search_step ?st (vocabularies ?st)))"
    by (simp add: pos_step_def search_step_def trim_def)
  have s: "all_missing_spec bare_noun"
    by (simp add: all_missing_spec_def bare_noun_def field_tests)
  from missing_all_fields_modes [of bare_noun ?st] ft m s show ?thesis by blast
qed

text \<open>
  C8: for a record whose part of speech is not verb, no completeness predicate looks at
  the verb forms. The list of missing fields never names them, the verb-forms test is
  false, each predicate equals the disjunction of its other tests, and replacing the verb
  forms by any value, absent or present, changes neither a predicate nor the dashboard's
  count over a table that holds the record.
\<close>

theorem verb_forms_ignored_for_non_verbs:
  "part_of_speech v \<noteq> Some ''verb'' \<Longrightarrow>
     ''verb_forms'' \<notin> set (missing_openai v) \<and>
     \<not> noVerbForms_if_verb v \<and>
     hasMissingFields_openai v = (noExplanation v \<or> noExamples v) \<and>
     hasMissingFields_gemini v =
       (noExamples v \<or> noExplanation v \<or> noRomanization v \<or> noPos v \<or> noThemes v) \<and>
     incomplete_dashboard v = (noExplanation v \<or> noExamples v) \<and>
     missing_openai (v\<lparr>verb_forms := vf\<rparr>) = missing_openai v \<and>
     hasMissingFields_openai (v\<lparr>verb_forms := vf\<rparr>) = hasMissingFields_openai v \<and>
     hasMissingFields_gemini (v\<lparr>verb_forms := vf\<rparr>) = hasMissingFields_gemini v \<and>
     incomplete_dashboard (v\<lparr>verb_forms := vf\<rparr>) = incomplete_dashboard v \<and>
     incompleteCount (xs @ v\<lparr>verb_forms := vf\<rparr> # ys) = incompleteCount (xs @ v # ys)"
  by (auto simp add: classifier_defs incompleteCount_def field_tests Let_def)

theorem verb_forms_ignored_for_non_verbs_witness:
  "part_of_speech complete_noun \<noteq> Some ''verb'' \<and>
   verb_forms complete_noun = None \<and>
   ''verb_forms'' \<notin> set (missing_openai complete_noun) \<and>
   \<not> noVerbForms_if_verb complete_noun \<and>
   \<not> hasMissingFields_openai complete_noun \<and>
   \<not> hasMissingFields_gemini complete_noun \<and>
   \<not> incomplete_dashboard complete_noun \<and>
   incompleteCount [complete_noun] = 0"
proof -
  have n: "part_of_speech complete_noun \<noteq> Some ''verb''" by (simp add: complete_noun_def)
  have others: "\<not> noExplanation complete_noun" "\<not> noExamples complete_noun"
    "\<not> noRomanization complete_noun" "\<not> noPos complete_noun" "\<not> noThemes complete_noun"
    "verb_forms complete_noun = None"
    by (simp_all add: complete_noun_def field_tests)
  from verb_forms_ignored_for_non_verbs [OF n, of None "[]" "[]"] n others
  show ?thesis by (simp add: incompleteCount_def)
qed

section \<open>Slug generation\<close>

lemma hyphen_not_slug: "\<not> is_slug_char (CHR ''-'')"
  by (simp add: is_slug_char_def)

lemma slug_char_not_hyphen: "is_slug_char c \<Longrightarrow> c \<noteq> CHR ''-''"
  using hyphen_not_slug by blast

lemma strip_edge_split: "strip_edge_hyphens s = strip_trail (strip_lead s)"
  by (simp add: strip_edge_hyphens_def strip_trail_def strip_lead_def)

lemma runs_skip: "alnum_runs (dropWhile (\<lambda>d. \<not> is_slug_char d) s) = alnum_runs s"
  by (induction s) auto

lemma strip_lead_runs:
  "strip_lead (replace_non_alnum_runs s) =
   replace_non_alnum_runs (dropWhile (\<lambda>d. \<not> is_slug_char d) s)"
  by (cases s) (auto simp add: strip_lead_def slug_char_not_hyphen)

lemma replace_nonempty: "s \<noteq> [] \<Longrightarrow> replace_non_alnum_runs s \<noteq> []"
  by (cases s) auto

lemma strip_trail_cons:
  "x \<noteq> [] \<Longrightarrow> strip_trail (c # x) = c # strip_trail x"
  by (simp add: strip_trail_def)

lemma strip_trail_replace:
  "(s = [] \<or> is_slug_char (hd s)) \<Longrightarrow>
   strip_trail (replace_non_alnum_runs s) = join_hyphen (alnum_runs s)"
proof (induction "length s" arbitrary: s rule: less_induct)
  case less
  show ?case
  proof (cases s)
    case Nil
    then show ?thesis by (simp add: strip_trail_def)
  next
    case s: (Cons c cs)
    with less.prems have c: "is_slug_char c" by simp
    show ?thesis
    proof (cases cs)
      case Nil
      with c s show ?thesis by (simp add: strip_trail_def slug_char_not_hyphen)
    next
      case (Cons d ds)
      show ?thesis
      proof (cases "is_slug_char d")
        case True
        with less.hyps [of cs] s Cons
        have ih: "strip_trail (replace_non_alnum_runs cs) = join_hyphen (alnum_runs cs)"
          by simp
        have ne: "replace_non_alnum_runs cs \<noteq> []" using Cons by (simp add: replace_nonempty)
        have "alnum_runs cs =
            (d # takeWhile is_slug_char ds) # alnum_runs (dropWhile is_slug_char ds)"
          using Cons True by simp
        moreover have "alnum_runs (c # cs) =
            (c # d # takeWhile is_slug_char ds) # alnum_runs (dropWhile is_slug_char ds)"
          using Cons True c by simp
        ultimately have "join_hyphen (alnum_runs (c # cs)) = c # join_hyphen (alnum_runs cs)"
          by (cases "alnum_runs (dropWhile is_slug_char ds)") simp_all
        with ih ne c s show ?thesis by (simp add: strip_trail_cons)
      next
        case False
        let ?r = "dropWhile (\<lambda>d. \<not> is_slug_char d) ds"
        have rc: "replace_non_alnum_runs (c # cs) = c # CHR ''-'' # replace_non_alnum_runs ?r"
          using c Cons False by simp
        have ar: "alnum_runs (c # cs) = [c] # alnum_runs ?r"
          using c Cons False by (simp add: runs_skip)
        show ?thesis
        proof (cases "?r = []")
          case True
          with rc ar s show ?thesis by (simp add: strip_trail_def)
        next
          case ne: False
          then have hd: "is_slug_char (hd ?r)"
            using hd_dropWhile [of "\<lambda>d. \<not> is_slug_char d" ds] by simp
          have "length ?r < length s"
            using s Cons length_dropWhile_le [of "\<lambda>d. \<not> is_slug_char d" ds] by simp
          with less.hyps [of ?r] hd
          have ih: "strip_trail (replace_non_alnum_runs ?r) = join_hyphen (alnum_runs ?r)"
            by simp
          have rne: "replace_non_alnum_runs ?r \<noteq> []" using ne by (rule replace_nonempty)
          have ane: "alnum_runs ?r \<noteq> []" using ne hd by (cases ?r) auto
          have "strip_trail (replace_non_alnum_runs (c # cs)) =
                c # CHR ''-'' # strip_trail (replace_non_alnum_runs ?r)"
            using rc rne by (simp add: strip_trail_cons)
          moreover have "join_hyphen (alnum_runs (c # cs)) =
                c # CHR ''-'' # join_hyphen (alnum_runs ?r)"
            using ar ane by (cases "alnum_runs ?r") simp_all
          ultimately show ?thesis using ih s by simp
        qed
      qed
    qed
  qed
qed

lemma generateSlug_refines: "generateSlug t = slug_spec t"
proof -
  let ?l = "toLowerCase t"
  let ?r = "dropWhile (\<lambda>d. \<not> is_slug_char d) ?l"
  have "?r = [] \<or> is_slug_char (hd ?r)"
    using hd_dropWhile [of "\<lambda>d. \<not> is_slug_char d" ?l] by blast
  then have "strip_trail (replace_non_alnum_runs ?r) = join_hyphen (alnum_runs ?r)"
    by (rule strip_trail_replace)
  then show ?thesis
    by (simp add: generateSlug_def slug_spec_def strip_edge_split strip_lead_runs runs_skip)
qed

lemma join_hyphen_edges:
  "list_all slug_word ws \<Longrightarrow> ws \<noteq> [] \<Longrightarrow>
   join_hyphen ws \<noteq> [] \<and> is_slug_char (hd (join_hyphen ws)) \<and>
   is_slug_char (last (join_hyphen ws))"
proof (induction ws rule: join_hyphen.induct)
  case 1
  then show ?case by simp
next
  case (2 w)
  then have "w \<noteq> []" and all: "list_all is_slug_char w" by (simp_all add: slug_word_def)
  then have "hd w \<in> set w" "last w \<in> set w" by simp_all
  with all \<open>w \<noteq> []\<close> show ?case by (simp add: list_all_iff)
next
  case (3 w v ws)
  then have w: "w \<noteq> []" "list_all is_slug_char w" by (simp_all add: slug_word_def)
  from 3 have ih: "join_hyphen (v # ws) \<noteq> []" "is_slug_char (last (join_hyphen (v # ws)))"
    by simp_all
  from w have "hd w \<in> set w" by simp
  with w have "is_slug_char (hd w)" by (simp add: list_all_iff)
  with w ih show ?case by simp
qed

lemma alnum_runs_words: "list_all slug_word (alnum_runs s)"
proof (induction s rule: alnum_runs.induct)
  case 1
  show ?case by simp
next
  case (2 c cs)
  have "list_all is_slug_char (takeWhile is_slug_char cs)"
    by (simp add: list_all_iff) (meson set_takeWhileD)
  with 2 show ?case by (simp add: slug_word_def)
qed

lemma slug_edges:
  "generateSlug t \<noteq> [] \<Longrightarrow>
     hd (generateSlug t) \<noteq> CHR ''-'' \<and> last (generateSlug t) \<noteq> CHR ''-''"
proof -
  assume ne: "generateSlug t \<noteq> []"
  let ?ws = "alnum_runs (toLowerCase t)"
  from ne have "?ws \<noteq> []" by (auto simp add: generateSlug_refines slug_spec_def)
  with alnum_runs_words [of "toLowerCase t"] join_hyphen_edges [of ?ws]
  have "is_slug_char (hd (join_hyphen ?ws))" "is_slug_char (last (join_hyphen ?ws))"
    by simp_all
  then show ?thesis
    by (auto simp add: generateSlug_refines slug_spec_def dest: slug_char_not_hyphen)
qed


text \<open>
  C6: the slug of a title is the list of the maximal runs of characters of \<open>[a-z0-9]\<close> of
  the lower-cased title, joined by single hyphens (every run of other characters between
  two of them has become one hyphen, those at the ends are gone); so the two titles of
  the specification give the slugs it names, and a slug neither starts nor ends with a
  hyphen. Alphanumeric is the class \<open>[a-z0-9]\<close> of the source's pattern. On submit the
  payload's slug is the generated one when the slug field is empty and the field's text
  as it is otherwise, for an insert and for an update alike.
\<close>

theorem generateSlug_and_submit:
  "generateSlug t = slug_spec t \<and>
   generateSlug ''How to Master Korean Particles!'' = ''how-to-master-korean-particles'' \<and>
   generateSlug ''  Leading/Trailing--Dashes  '' = ''leading-trailing-dashes'' \<and>
   (generateSlug t \<noteq> [] \<longrightarrow>
      hd (generateSlug t) \<noteq> CHR ''-'' \<and> last (generateSlug t) \<noteq> CHR ''-'') \<and>
   list_all slug_word (alnum_runs (toLowerCase t)) \<and>
   payload_slug (blog_payload_of formData) =
     (if form_slug formData = [] then generateSlug (form_title formData) else form_slug formData) \<and>
   handleSubmit_blog None formData = Insert (blog_payload_of formData) \<and>
   handleSubmit_blog (Some item_id) formData = Update item_id (blog_payload_of formData)"
proof -
  have e1: "generateSlug ''How to Master Korean Particles!'' = ''how-to-master-korean-particles''"
    by code_simp
  have e2: "generateSlug ''  Leading/Trailing--Dashes  '' = ''leading-trailing-dashes''"
    by code_simp
  have p: "payload_slug (blog_payload_of formData) =
     (if form_slug formData = [] then generateSlug (form_title formData) else form_slug formData)"
    by (simp add: blog_payload_of_def)
  have h: "handleSubmit_blog None formData = Insert (blog_payload_of formData)"
    "handleSubmit_blog (Some item_id) formData = Update item_id (blog_payload_of formData)"
    by (simp_all add: handleSubmit_blog_def)
  from generateSlug_refines [of t] e1 e2 slug_edges [of t] alnum_runs_words [of "toLowerCase t"] p h
  show ?thesis by blast
qed

theorem generateSlug_and_submit_witness:
  "generateSlug ''Hello,  World'' = ''hello-world'' \<and>
   generateSlug ''Hello,  World'' \<noteq> [] \<and>
   hd (generateSlug ''Hello,  World'') \<noteq> CHR ''-'' \<and>
   last (generateSlug ''Hello,  World'') \<noteq> CHR ''-'' \<and>
   payload_slug (blog_payload_of
     \<lparr>form_title = ''Hello,  World'', form_slug = [], form_content = ''c'',
      form_thumbnail_url = [], form_category = [], form_tags = []\<rparr>) = ''hello-world'' \<and>
   payload_slug (blog_payload_of
     \<lparr>form_title = ''Hello,  World'', form_slug = ''My Slug!'', form_content = ''c'',
      form_thumbnail_url = [], form_category = [], form_tags = []\<rparr>) = ''My Slug!''"
proof -
  have s: "slug_spec ''Hello,  World'' = ''hello-world''" by code_simp
  let ?f = "\<lparr>form_title = ''Hello,  World'', form_slug = [], form_content = ''c'',
      form_thumbnail_url = [], form_category = [], form_tags = []\<rparr>"
  let ?g = "\<lparr>form_title = ''Hello,  World'', form_slug = ''My Slug!'', form_content = ''c'',
      form_thumbnail_url = [], form_category = [], form_tags = []\<rparr>"
  from generateSlug_and_submit [of "''Hello,  World''" ?f] s
  have a: "generateSlug ''Hello,  World'' = ''hello-world''"
    and b: "payload_slug (blog_payload_of ?f) = ''hello-world''" by simp_all
  from generateSlug_and_submit [of "''Hello,  World''" ?g]
  have c: "payload_slug (blog_payload_of ?g) = ''My Slug!''" by simp
  from a have ne: "generateSlug ''Hello,  World'' \<noteq> []" by simp
  with generateSlug_and_submit [of "''Hello,  World''" ?f]
  have d: "hd (generateSlug ''Hello,  World'') \<noteq> CHR ''-''"
    "last (generateSlug ''Hello,  World'') \<noteq> CHR ''-''" by blast+
  from a b c d ne show ?thesis by blast
qed

section \<open>The vocabulary form\<close>

text \<open>
  C9: the payload the vocabulary form sends, as an insert or as an update, has no verb
  forms when the selected part of speech is not verb, whatever the verb-form fields hold,
  and none of its examples has a Korean text that is empty after trimming.
\<close>

theorem vocabulary_payload_invariant:
  "(partOfSpeech f \<noteq> ''verb'' \<longrightarrow> payload_verb_forms (vocabulary_payload_of f) = None) \<and>
   (\<forall>ex \<in> set (payload_examples (vocabulary_payload_of f)). trim (korean ex) \<noteq> []) \<and>
   handleSubmit_vocabulary None f = Insert (vocabulary_payload_of f) \<and>
   handleSubmit_vocabulary (Some item_id) f = Update item_id (vocabulary_payload_of f)"
  by (simp add: vocabulary_payload_of_def handleSubmit_vocabulary_def)

theorem vocabulary_payload_invariant_witness:
  "partOfSpeech adjective_form \<noteq> ''verb'' \<and>
   present (verbForms adjective_form) \<noteq> [] \<and>
   payload_verb_forms (vocabulary_payload_of adjective_form) = None \<and>
   payload_examples (vocabulary_payload_of adjective_form) =
     [\<lparr>korean = '' a '', bangla = []\<rparr>] \<and>
   trim '' a '' \<noteq> []"
proof -
  have n: "partOfSpeech adjective_form \<noteq> ''verb''" "present (verbForms adjective_form) \<noteq> []"
    by (simp_all add: adjective_form_def)
  have t1: "trim ''  '' = []" by code_simp
  have t2: "trim '' a '' = ''a''" by code_simp
  have ex: "payload_examples (vocabulary_payload_of adjective_form) =
     [\<lparr>korean = '' a '', bangla = []\<rparr>]"
    by (simp add: vocabulary_payload_of_def adjective_form_def t1 t2)
  from vocabulary_payload_invariant [of adjective_form] n ex
  show ?thesis by simp
qed

text \<open>
  C10: the chapters parser keeps, in order, the integers that \<open>parseInt\<close> reads from the
  trimmed comma-separated entries, drops the entries it reads no integer from, and drops
  every zero: the input "0, 5" gives the list [5], and no parsed list contains 0. An
  entry such as "12a" counts as the integer 12, as \<open>parseInt\<close> reads it.
\<close>

theorem parse_chapters_drops_zero:
  "parse_chapters ''0, 5'' = Some [5] \<and>
   parse_chapters [] = None \<and>
   (s \<noteq> [] \<longrightarrow>
      parse_chapters s =
        Some (filter (\<lambda>n. n \<noteq> 0)
               (List.map_filter (\<lambda>c. parseInt (trim c)) (split_on (CHR '','') s)))) \<and>
   (parse_chapters s = Some cs \<longrightarrow> 0 \<notin> set cs)"
proof -
  have a: "parse_chapters ''0, 5'' = Some [5]" by code_simp
  have b: "parse_chapters [] = None" by (simp add: parse_chapters_def)
  have g: "map the (filter Boolean_num (map f xs)) =
           filter (\<lambda>n. n \<noteq> 0) (List.map_filter f xs)" for f :: "string \<Rightarrow> int option" and xs
    by (induction xs) (auto simp add: List.map_filter_simps Boolean_num_def split: option.splits)
  have c: "s \<noteq> [] \<longrightarrow> parse_chapters s =
        Some (filter (\<lambda>n. n \<noteq> 0)
               (List.map_filter (\<lambda>c. parseInt (trim c)) (split_on (CHR '','') s)))"
    by (simp add: parse_chapters_def g)
  have d: "parse_chapters s = Some cs \<longrightarrow> 0 \<notin> set cs"
  proof (cases "s = []")
    case True
    with b show ?thesis by simp
  next
    case False
    with c show ?thesis by auto
  qed
  from a b c d show ?thesis by blast
qed

theorem parse_chapters_drops_zero_witness:
  "parse_chapters ''3,x,0,12a'' = Some [3, 12] \<and> (0::int) \<notin> set [3, 12]"
proof -
  have e: "parse_chapters ''3,x,0,12a'' = Some [3, 12]" by code_simp
  from parse_chapters_drops_zero [of "''3,x,0,12a''" "[3, 12]"] e show ?thesis by blast
qed

section \<open>Cleanup of a fenced response\<close>

lemma remove_all_prefix: "pat \<noteq> [] \<Longrightarrow> remove_all pat (pat @ s) = remove_all pat s"
  by (cases pat) simp_all

lemma prefix_across:
  assumes "c \<notin> set pat"
  shows "prefix pat (xs @ c # ys) = prefix pat xs"
proof
  assume "prefix pat (xs @ c # ys)"
  then have "prefix pat xs \<or> (\<exists>us. pat = xs @ us \<and> prefix us (c # ys))"
    by (simp add: prefix_append)
  then show "prefix pat xs"
  proof
    assume "prefix pat xs"
    then show ?thesis .
  next
    assume "\<exists>us. pat = xs @ us \<and> prefix us (c # ys)"
    then obtain us where us: "pat = xs @ us" "prefix us (c # ys)" by blast
    from us(2) have "us = [] \<or> (\<exists>zs. us = c # zs)" by (auto simp add: prefix_Cons)
    with us(1) assms show ?thesis by auto
  qed
next
  assume "prefix pat xs"
  then show "prefix pat (xs @ c # ys)" by (rule prefix_prefix)
qed

lemma drop_within: "n \<le> length A \<Longrightarrow> drop n (A @ B) = drop n A @ B"
  by simp

lemma remove_all_across:
  "c \<notin> set pat \<Longrightarrow>
   remove_all pat (xs @ c # ys) = remove_all pat xs @ c # remove_all pat ys"
proof (induction pat xs rule: remove_all.induct)
  case (1 pat)
  then have "\<not> prefix pat (c # ys) \<or> pat = []" by (cases pat) auto
  then show ?case by auto
next
  case (2 pat x xs)
  have px: "prefix pat ((x # xs) @ c # ys) = prefix pat (x # xs)"
    using 2(3) by (rule prefix_across)
  show ?case
  proof (cases "pat \<noteq> [] \<and> prefix pat (x # xs)")
    case True
    then have len: "length pat \<le> length (x # xs)" using prefix_length_le by blast
    then have "drop (length pat) ((x # xs) @ c # ys) = drop (length pat) (x # xs) @ c # ys"
      by (rule drop_within)
    with True px 2(1) [OF True 2(3)] show ?thesis by simp
  next
    case False
    with px 2(2) [OF False 2(3)] show ?thesis by auto
  qed
qed

lemma remove_all_absent: "\<not> includes_str s pat \<Longrightarrow> remove_all pat s = s"
  by (induction pat s rule: remove_all.induct) auto

lemma trim_line_feeds:
  assumes "is_js_space w" "is_js_space u"
  shows "trim (u # body @ [w]) = trim body"
proof (cases "\<forall>c \<in> set body. is_js_space c")
  case True
  then have e1: "dropWhile is_js_space (u # body @ [w]) = []"
    and e2: "dropWhile is_js_space body = []"
    using assms by simp_all
  have "trim (u # body @ [w]) = []" unfolding trim_def e1 by simp
  moreover have "trim body = []" unfolding trim_def e2 by simp
  ultimately show ?thesis by simp
next
  case False
  then have "dropWhile is_js_space (body @ [w]) = dropWhile is_js_space body @ [w]"
    by (auto simp add: dropWhile_append1)
  with assms show ?thesis by (simp add: trim_def)
qed

lemma line_feed_space: "is_js_space (CHR 0x0A)"
  by (simp add: is_js_space_def)

lemma line_feed_not_in_fences:
  "CHR 0x0A \<notin> set fence_json" "CHR 0x0A \<notin> set fence_mark"
  by (simp_all add: fence_json_def fence_mark_def)

lemma fence_json_keeps_mark: "remove_all fence_json fence_mark = fence_mark"
  by (simp add: fence_json_def fence_mark_def)

lemma cleanup_fenced: "cleanup (fenced t) = cleanup t"
proof -
  have ne: "fence_json \<noteq> []" "fence_mark \<noteq> []" by (simp_all add: fence_json_def fence_mark_def)
  have "remove_all fence_json (fenced t) =
        remove_all fence_json ([] @ CHR 0x0A # (t @ CHR 0x0A # fence_mark))"
    using remove_all_prefix [OF ne(1)] by (simp add: fenced_def)
  also have "\<dots> = CHR 0x0A # remove_all fence_json (t @ CHR 0x0A # fence_mark)"
    using remove_all_across [OF line_feed_not_in_fences(1), of "[]"] by simp
  also have "\<dots> = CHR 0x0A # (remove_all fence_json t @ CHR 0x0A # fence_mark)"
    using remove_all_across [OF line_feed_not_in_fences(1)] fence_json_keeps_mark by simp
  finally have a: "remove_all fence_json (fenced t) =
      [] @ CHR 0x0A # (remove_all fence_json t @ CHR 0x0A # fence_mark)" by simp
  have m: "remove_all fence_mark fence_mark = []"
    using remove_all_prefix [OF ne(2), of "[]"] by simp
  have "remove_all fence_mark (remove_all fence_json (fenced t)) =
        CHR 0x0A # remove_all fence_mark (remove_all fence_json t @ CHR 0x0A # fence_mark)"
    unfolding a using remove_all_across [OF line_feed_not_in_fences(2), of "[]"] by simp
  also have "\<dots> = CHR 0x0A # (remove_all fence_mark (remove_all fence_json t) @ [CHR 0x0A])"
    using remove_all_across [OF line_feed_not_in_fences(2)] m by simp
  finally show ?thesis
    using trim_line_feeds [OF line_feed_space line_feed_space] by (simp add: cleanup_def)
qed

lemma prefix_fence_json: "prefix fence_json s \<Longrightarrow> prefix fence_mark s"
  by (auto simp add: fence_json_def prefix_def)

lemma includes_fence_json: "includes_str s fence_json \<Longrightarrow> includes_str s fence_mark"
  by (induction s) (auto simp add: fence_json_def dest: prefix_fence_json [unfolded fence_json_def])

lemma cleanup_plain:
  assumes "\<not> includes_str t fence_mark"
  shows "cleanup t = trim t"
proof -
  from assms have "\<not> includes_str t fence_json" using includes_fence_json by blast
  then have "remove_all fence_json t = t" by (rule remove_all_absent)
  moreover from assms have "remove_all fence_mark t = t" by (rule remove_all_absent)
  ultimately show ?thesis by (simp add: cleanup_def)
qed

text \<open>
  Claim C5, as stated, fails for a JSON text that contains the fence itself: the JSON
  string literal of three backticks parses to a string of three backticks, but after
  fencing and cleanup the text left is the literal of the empty string.
\<close>

theorem cleanup_quoted_fence_counterexample:
  "json_string_literal quoted_fence = Some fence_mark \<and>
   json_string_literal (cleanup (fenced quoted_fence)) = Some []"
  by code_simp

lemma json_space_is_js_space: "is_json_space c \<Longrightarrow> is_js_space c"
  by (auto simp add: is_json_space_def is_js_space_def)

lemma dropWhile_weaker:
  "(\<And>c. Q c \<Longrightarrow> P c) \<Longrightarrow> dropWhile P (dropWhile Q s) = dropWhile P s"
  by (induction s) auto

lemma dropWhile_id: "s \<noteq> [] \<Longrightarrow> \<not> P (hd s) \<Longrightarrow> dropWhile P s = s"
  by (cases s) simp_all

lemma trim_of_json_text:
  assumes ne: "json_trim t \<noteq> []"
    and first: "\<not> is_js_space (hd (json_trim t))"
    and final: "\<not> is_js_space (last (json_trim t))"
  shows "trim t = json_trim t"
proof -
  let ?a = "dropWhile is_json_space t"
  let ?core = "json_trim t"
  have rc: "rev ?core = dropWhile is_json_space (rev ?a)"
    by (simp add: json_trim_def)
  have "rev ?a = takeWhile is_json_space (rev ?a) @ rev ?core"
    by (simp add: rc)
  then have "rev (rev ?a) = rev (takeWhile is_json_space (rev ?a) @ rev ?core)"
    by (rule arg_cong)
  then have a: "?a = ?core @ rev (takeWhile is_json_space (rev ?a))"
    by simp
  then have h: "hd ?a = hd ?core" using ne by (metis hd_append2)
  from a ne have ane: "?a \<noteq> []" by (metis append_is_Nil_conv)
  from first h have "\<not> is_js_space (hd ?a)" by simp
  with ane have s1: "dropWhile is_js_space ?a = ?a" by (rule dropWhile_id)
  have "dropWhile is_js_space t = dropWhile is_js_space ?a"
    by (rule dropWhile_weaker [symmetric]) (rule json_space_is_js_space)
  with s1 have d1: "dropWhile is_js_space t = ?a" by simp
  have "dropWhile is_js_space (rev ?a) = dropWhile is_js_space (rev ?core)"
    unfolding rc by (rule dropWhile_weaker [symmetric]) (rule json_space_is_js_space)
  also have "\<dots> = rev ?core"
    using ne final by (intro dropWhile_id) (simp_all add: hd_rev)
  finally have "dropWhile is_js_space (rev ?a) = rev ?core" .
  with d1 show ?thesis by (simp add: trim_def)
qed

lemma parse_cleanup_fenced:
  assumes p: "reads_json_texts parse" and t: "parse t \<noteq> None"
    and nf: "\<not> includes_str t fence_mark"
  shows "parse (cleanup (fenced t)) = parse t"
proof -
  from p t have a: "parse (json_trim t) = parse t" "json_trim t \<noteq> []"
    "\<not> is_js_space (hd (json_trim t))" "\<not> is_js_space (last (json_trim t))"
    by (auto simp add: reads_json_texts_def)
  from a(2-4) have "trim t = json_trim t" by (rule trim_of_json_text)
  with a(1) cleanup_fenced [of t] cleanup_plain [OF nf] show ?thesis by simp
qed

lemma quote_not_space: "\<not> is_js_space (CHR 0x22)" "\<not> is_json_space (CHR 0x22)"
  by (simp_all add: is_js_space_def is_json_space_def)

lemma string_literal_shape:
  assumes "json_string_literal u = Some b"
  shows "\<exists>ws. dropWhile is_json_space u = CHR 0x22 # b @ CHR 0x22 # ws \<and>
              list_all is_json_space ws \<and> CHR 0x22 \<notin> set b \<and>
              list_all (\<lambda>c. c \<noteq> CHR 0x5C \<and> (of_char c :: nat) \<ge> 32) b"
proof -
  from assms obtain q r where a: "dropWhile is_json_space u = q # r"
    by (cases "dropWhile is_json_space u") (auto simp add: json_string_literal_def)
  let ?body = "takeWhile (\<lambda>c. c \<noteq> CHR 0x22) r"
  let ?rest = "drop (length ?body) r"
  from assms a have q: "q = CHR 0x22"
    by (auto simp add: json_string_literal_def Let_def split: if_splits)
  from assms a q have c: "?rest \<noteq> []" "list_all is_json_space (tl ?rest)"
    "list_all (\<lambda>c. c \<noteq> CHR 0x5C \<and> (of_char c :: nat) \<ge> 32) ?body" "b = ?body"
    by (auto simp add: json_string_literal_def Let_def split: if_splits)
  have rest: "?rest = dropWhile (\<lambda>c. c \<noteq> CHR 0x22) r"
    by (simp add: dropWhile_eq_drop)
  with c(1) have "hd ?rest = CHR 0x22"
    using hd_dropWhile [of "\<lambda>c. c \<noteq> CHR 0x22" r] by auto
  with c(1) have r1: "?rest = CHR 0x22 # tl ?rest" by (cases ?rest) auto
  have "r = ?body @ ?rest" by (metis takeWhile_eq_take append_take_drop_id)
  with r1 have "r = b @ CHR 0x22 # tl ?rest" using c(4) by simp
  with a q have shape: "dropWhile is_json_space u = CHR 0x22 # b @ CHR 0x22 # tl ?rest"
    by simp
  have noq: "CHR 0x22 \<notin> set b" using c(4) by (auto dest: set_takeWhileD)
  from c(3,4) have okb: "list_all (\<lambda>c. c \<noteq> CHR 0x5C \<and> (of_char c :: nat) \<ge> 32) b"
    by simp
  from shape c(2) noq okb show ?thesis by (intro exI [of _ "tl ?rest"] conjI)
qed

lemma takeWhile_up_to: "q \<notin> set b \<Longrightarrow> takeWhile (\<lambda>c. c \<noteq> q) (b @ q # ws) = b"
  by (induction b) auto

lemma string_literal_of_shape:
  assumes "dropWhile is_json_space u = CHR 0x22 # b @ CHR 0x22 # ws"
    and "list_all is_json_space ws" and "CHR 0x22 \<notin> set b"
    and "list_all (\<lambda>c. c \<noteq> CHR 0x5C \<and> (of_char c :: nat) \<ge> 32) b"
  shows "json_string_literal u = Some b"
proof -
  have t: "takeWhile (\<lambda>c. c \<noteq> CHR 0x22) (b @ CHR 0x22 # ws) = b"
    using assms(3) by (rule takeWhile_up_to)
  show ?thesis
    using assms(2,4) by (simp add: json_string_literal_def assms(1) t Let_def)
qed

lemma json_trim_string_literal:
  assumes "dropWhile is_json_space u = CHR 0x22 # b @ CHR 0x22 # ws"
    and "list_all is_json_space ws"
  shows "json_trim u = CHR 0x22 # b @ [CHR 0x22]"
proof -
  have "rev (dropWhile is_json_space u) = rev ws @ CHR 0x22 # rev (CHR 0x22 # b)"
    by (simp add: assms(1))
  moreover have "\<forall>c \<in> set (rev ws). is_json_space c"
    using assms(2) by (simp add: list_all_iff)
  ultimately have "dropWhile is_json_space (rev (dropWhile is_json_space u)) =
                   CHR 0x22 # rev (CHR 0x22 # b)"
    using quote_not_space(2) by (simp add: dropWhile_append3)
  then show ?thesis by (simp add: json_trim_def)
qed

lemma json_string_literal_reads: "reads_json_texts json_string_literal"
  unfolding reads_json_texts_def
proof (intro allI impI)
  fix u assume "json_string_literal u \<noteq> None"
  then obtain b where b: "json_string_literal u = Some b" by auto
  from string_literal_shape [OF b] obtain ws where
    s: "dropWhile is_json_space u = CHR 0x22 # b @ CHR 0x22 # ws"
    "list_all is_json_space ws" "CHR 0x22 \<notin> set b"
    "list_all (\<lambda>c. c \<noteq> CHR 0x5C \<and> (of_char c :: nat) \<ge> 32) b"
    by blast
  have core: "json_trim u = CHR 0x22 # b @ [CHR 0x22]"
    using s(1,2) by (rule json_trim_string_literal)
  have "dropWhile is_json_space (json_trim u) = CHR 0x22 # b @ CHR 0x22 # []"
    using quote_not_space(2) by (simp add: core)
  then have "json_string_literal (json_trim u) = Some b"
    using s(3,4) by (intro string_literal_of_shape [where ws = "[]"]) simp_all
  with b core quote_not_space(1)
  show "json_string_literal (json_trim u) = json_string_literal u \<and> json_trim u \<noteq> [] \<and>
        \<not> is_js_space (hd (json_trim u)) \<and> \<not> is_js_space (last (json_trim u))"
    by simp
qed

text \<open>
  C5 (amended): for every JSON text t without three consecutive backticks, the cleanup of
  t wrapped in a json code fence parses to the same value as t itself. Here a JSON text
  is a text the parser accepts, and the parser is any function that reads texts as
  \<open>JSON.parse\<close> does: white space of the JSON grammar around a text changes nothing, and
  an accepted text has a first and a last character besides it that are no white space.
  For every text at all, the cleanup of the fenced text is the cleanup of the text, and
  without three consecutive backticks it is the text trimmed.
\<close>

theorem cleanup_of_fenced_response:
  "cleanup (fenced t) = cleanup t \<and>
   (\<not> includes_str t fence_mark \<longrightarrow> cleanup (fenced t) = trim t) \<and>
   (reads_json_texts parse \<and> parse t \<noteq> None \<and> \<not> includes_str t fence_mark \<longrightarrow>
      parse (cleanup (fenced t)) = parse t)"
  using cleanup_fenced [of t] cleanup_plain [of t] parse_cleanup_fenced [of parse t] by simp

theorem cleanup_of_fenced_response_witness:
  "reads_json_texts json_string_literal \<and>
   json_string_literal quoted_word = Some ''ok'' \<and>
   \<not> includes_str quoted_word fence_mark \<and>
   json_string_literal (cleanup (fenced quoted_word)) = Some ''ok''"
proof -
  have a: "\<not> includes_str quoted_word fence_mark" by code_simp
  have b: "json_string_literal quoted_word = Some ''ok''" by code_simp
  have ne: "json_string_literal quoted_word \<noteq> None" by (simp add: b)
  from cleanup_of_fenced_response [of quoted_word json_string_literal]
  have "reads_json_texts json_string_literal \<and> json_string_literal quoted_word \<noteq> None \<and>
        \<not> includes_str quoted_word fence_mark \<longrightarrow>
        json_string_literal (cleanup (fenced quoted_word)) = json_string_literal quoted_word"
    by blast
  with json_string_literal_reads ne a
  have "json_string_literal (cleanup (fenced quoted_word)) = json_string_literal quoted_word"
    by blast
  then have c: "json_string_literal (cleanup (fenced quoted_word)) = Some ''ok''"
    by (simp only: b)
  from json_string_literal_reads b a c show ?thesis by blast
qed

section \<open>Paginated fetch against an unchanging table\<close>

text \<open>
  C4: against a table of N rows that does not change during the fetch, the paginated
  fetch returns, and returns exactly the rows of the table in order, hence N records; in
  particular for N = 0, 999, 1000, 1001 and 2500.
\<close>

lemma PAGE_SIZE_pos: "0 < PAGE_SIZE"
  by (simp add: PAGE_SIZE_def)

lemma fetch_pages_table:
  "to + 1 = from + PAGE_SIZE \<Longrightarrow>
   fetch_pages (table_range rows) allData from to = Some (Inr (allData @ drop from rows))"
proof (induction "length rows - from" arbitrary: allData "from" to rule: less_induct)
  case less
  let ?d = "take PAGE_SIZE (drop from rows)"
  have res: "table_range rows from to = \<lparr>q_data = Some ?d, q_error = None\<rparr>"
    using less.prems by (simp add: table_range_def)
  show ?case
  proof (cases "length ?d = 0")
    case True
    then have "drop from rows = []" using PAGE_SIZE_pos by (cases "drop from rows") auto
    with True res show ?thesis by (subst fetch_pages.simps) simp
  next
    case ne: False
    show ?thesis
    proof (cases "length ?d < PAGE_SIZE")
      case True
      then have "?d = drop from rows" by (simp add: min_def split: if_splits)
      with ne True res show ?thesis by (subst fetch_pages.simps) simp
    next
      case False
      then have full: "PAGE_SIZE \<le> length rows - from" by simp
      then have dec: "length rows - (from + PAGE_SIZE) < length rows - from"
        using PAGE_SIZE_pos by simp
      have nxt: "to + PAGE_SIZE + 1 = from + PAGE_SIZE + PAGE_SIZE" using less.prems by simp
      have "fetch_pages (table_range rows) (allData @ ?d) (from + PAGE_SIZE) (to + PAGE_SIZE) =
            Some (Inr ((allData @ ?d) @ drop (from + PAGE_SIZE) rows))"
        using less.hyps [OF dec nxt] .
      moreover have "?d @ drop (from + PAGE_SIZE) rows = drop from rows"
        by (metis add.commute append_take_drop_id drop_drop)
      ultimately show ?thesis using ne False res
        by (subst fetch_pages.simps) simp
    qed
  qed
qed

theorem paginated_fetch_returns_all_rows:
  "fetchAll (table_range rows) = Some (Inr rows) \<and>
   (\<forall>N \<in> {0, 999, 1000, 1001, 2500}. length rows = N \<longrightarrow>
      (\<exists>fetched. fetchAll (table_range rows) = Some (Inr fetched) \<and> length fetched = N))"
proof -
  have "PAGE_SIZE - 1 + 1 = 0 + PAGE_SIZE" using PAGE_SIZE_pos by simp
  from fetch_pages_table [OF this, of rows "[]"]
  have "fetchAll (table_range rows) = Some (Inr rows)" by (simp add: fetchAll_def)
  then show ?thesis by simp
qed

theorem paginated_fetch_returns_all_rows_witness:
  "fetchAll (table_range ([] :: nat list)) = Some (Inr []) \<and>
   fetchAll (table_range [0..<999]) = Some (Inr [0..<999]) \<and>
   fetchAll (table_range [0..<1000]) = Some (Inr [0..<1000]) \<and>
   fetchAll (table_range [0..<1001]) = Some (Inr [0..<1001]) \<and>
   fetchAll (table_range [0..<2500]) = Some (Inr [0..<2500]) \<and>
   length [0..<2500] = 2500"
  using paginated_fetch_returns_all_rows [of "[] :: nat list"]
    paginated_fetch_returns_all_rows [of "[0..<999]"]
    paginated_fetch_returns_all_rows [of "[0..<1000]"]
    paginated_fetch_returns_all_rows [of "[0..<1001]"]
    paginated_fetch_returns_all_rows [of "[0..<2500]"]
  by simp

section \<open>The enhancement batch\<close>

text \<open>
  The loop is analysed by three invariants, each by computation induction on the loop: the
  effects are those of the schedule of the records still to come, the counters count the
  records whose attempt succeeded or threw, and, when the ids are distinct, the results
  are the final results of the records passed followed by the pending results of the
  others.
\<close>

lemma schedule_Cons:
  "schedule d (x # xs) = Enhance x # (if xs = [] then [] else Sleep d # schedule d xs)"
  by (cases xs) simp_all

lemma sleeps_append: "sleeps (es @ fs) = sleeps es @ sleeps fs"
  by (induction es rule: sleeps.induct) simp_all

lemma attempts_append: "attempts (es @ fs) = attempts es @ attempts fs"
  by (induction es rule: attempts.induct) simp_all

lemma sleeps_schedule: "sleeps (schedule d xs) = replicate (length xs - 1) d"
  by (induction d xs rule: schedule.induct) simp_all

lemma attempts_schedule: "attempts (schedule d xs) = xs"
  by (induction d xs rule: schedule.induct) simp_all

lemma loop_body_effects:
  "i < length selected \<Longrightarrow>
   effects (loop_body s ext sf selected i st) =
     effects st @ Enhance (vocab_id (selected ! i)) #
       (if i < length selected - 1 then [Sleep (delay_ms s)] else [])"
  by (simp add: loop_body_def Let_def split: sum.splits)

lemma loop_body_counts:
  "successCount (loop_body s ext sf selected i st) =
     successCount st + (if isl (try_enhance s ext sf (selected ! i)) then 0 else 1)"
  "errorCount (loop_body s ext sf selected i st) =
     errorCount st + (if isl (try_enhance s ext sf (selected ! i)) then 1 else 0)"
  by (simp_all add: loop_body_def Let_def split: sum.splits)

lemma enhance_loop_effects:
  "effects (enhance_loop s ext sf selected i st) =
     effects st @ schedule (delay_ms s) (map vocab_id (drop i selected))"
proof (induction s ext sf selected i st rule: enhance_loop.induct)
  case (1 s ext sf selected i st)
  show ?case
  proof (cases "i < length selected")
    case True
    then have d: "drop i selected = selected ! i # drop (Suc i) selected"
      by (simp add: Cons_nth_drop_Suc)
    have e: "(drop (Suc i) selected = []) = (\<not> i < length selected - 1)"
      using True by auto
    from True 1 loop_body_effects [OF True, of s ext sf st] d e show ?thesis
      by (subst enhance_loop.simps) (simp add: schedule_Cons)
  next
    case False
    then show ?thesis by (subst enhance_loop.simps) simp
  qed
qed

lemma enhance_loop_counts:
  "successCount (enhance_loop s ext sf selected i st) =
     successCount st + length (filter (\<lambda>v. \<not> isl (try_enhance s ext sf v)) (drop i selected)) \<and>
   errorCount (enhance_loop s ext sf selected i st) =
     errorCount st + length (filter (\<lambda>v. isl (try_enhance s ext sf v)) (drop i selected))"
proof (induction s ext sf selected i st rule: enhance_loop.induct)
  case (1 s ext sf selected i st)
  show ?case
  proof (cases "i < length selected")
    case True
    then have d: "drop i selected = selected ! i # drop (Suc i) selected"
      by (simp add: Cons_nth_drop_Suc)
    from True 1 d show ?thesis
      by (subst (1 2) enhance_loop.simps) (simp add: loop_body_counts)
  next
    case False
    then show ?thesis by (subst (1 2) enhance_loop.simps) simp
  qed
qed


lemma result_id_pending: "result_id (pending_result v) = vocab_id v"
  by (simp add: pending_result_def)

lemma result_id_final: "result_id (final_result s ext sf v) = vocab_id v"
  by (simp add: final_result_def pending_result_def split: sum.splits)

lemma set_result_middle:
  assumes "\<forall>a \<in> set A. result_id a \<noteq> k" "\<forall>b \<in> set B. result_id b \<noteq> k" "result_id r = k"
  shows "set_result k f (A @ r # B) = A @ f r # B"
proof -
  have "map (\<lambda>r. if result_id r = k then f r else r) A = A"
    using assms(1) by (intro map_idI) simp
  moreover have "map (\<lambda>r. if result_id r = k then f r else r) B = B"
    using assms(2) by (intro map_idI) simp
  ultimately show ?thesis using assms(3) by (simp add: set_result_def)
qed

lemma set_result_ids:
  "(\<And>r. result_id (f r) = result_id r) \<Longrightarrow>
   map result_id (set_result k f rs) = map result_id rs"
  by (simp add: set_result_def comp_def)

lemma loop_body_result_ids:
  "map result_id (results (loop_body s ext sf selected i st)) = map result_id (results st)"
  by (simp add: loop_body_def Let_def set_result_ids split: sum.splits)

lemma enhance_loop_result_ids:
  "map result_id (results (enhance_loop s ext sf selected i st)) = map result_id (results st)"
proof (induction s ext sf selected i st rule: enhance_loop.induct)
  case (1 s ext sf selected i st)
  then show ?case
    by (subst enhance_loop.simps) (simp add: loop_body_result_ids)
qed

lemma finish_result_funs:
  "finish_result s (Inl t) =
     (\<lambda>r. r\<lparr>result_status := Error, result_error := Some (caught_message s t)\<rparr>)"
  "finish_result s (Inr enhanced) =
     (\<lambda>r. r\<lparr>result_status := Success, result_enhanced := enhanced\<rparr>)"
  by (simp_all add: finish_result_def fun_eq_iff)

lemma loop_body_results_eq:
  "results (loop_body s ext sf selected i st) =
     set_result (vocab_id (selected ! i)) (finish_result s (try_enhance s ext sf (selected ! i)))
       (set_result (vocab_id (selected ! i)) (\<lambda>r. r\<lparr>result_status := Processing\<rparr>)
          (results st))"
  by (simp add: loop_body_def Let_def finish_result_funs split: sum.splits)

lemma loop_body_results:
  assumes dist: "distinct (map vocab_id selected)"
    and i: "i < length selected"
    and inv: "results st = map (final_result s ext sf) (take i selected) @
                           map pending_result (drop i selected)"
  shows "results (loop_body s ext sf selected i st) =
           map (final_result s ext sf) (take (Suc i) selected) @
           map pending_result (drop (Suc i) selected)"
proof -
  let ?x = "selected ! i"
  let ?A = "map (final_result s ext sf) (take i selected)"
  let ?B = "map pending_result (drop (Suc i) selected) :: 'a EnhancementResult list"
  have split: "selected = take i selected @ ?x # drop (Suc i) selected"
    using i by (rule id_take_nth_drop)
  have "map vocab_id selected =
        map vocab_id (take i selected) @ vocab_id ?x # map vocab_id (drop (Suc i) selected)"
    by (subst split) simp
  with dist have "distinct (map vocab_id (take i selected) @ vocab_id ?x #
                    map vocab_id (drop (Suc i) selected))"
    by (simp only:)
  then have nA: "vocab_id ?x \<notin> set (map vocab_id (take i selected))"
    and nB: "vocab_id ?x \<notin> set (map vocab_id (drop (Suc i) selected))"
    by simp_all
  have notA: "\<forall>a \<in> set (take i selected). vocab_id a \<noteq> vocab_id ?x"
    using nA by (metis image_eqI set_map)
  have notB: "\<forall>b \<in> set (drop (Suc i) selected). vocab_id b \<noteq> vocab_id ?x"
    using nB by (metis image_eqI set_map)
  have A: "\<forall>a \<in> set ?A. result_id a \<noteq> vocab_id ?x"
    using notA by (simp add: result_id_final)
  have B: "\<forall>b \<in> set ?B. result_id b \<noteq> vocab_id ?x"
    using notB by (simp add: result_id_pending)
  have "drop i selected = ?x # drop (Suc i) selected"
    using i by (simp add: Cons_nth_drop_Suc)
  with inv have st: "results st = ?A @ pending_result ?x # ?B"
    by simp
  have tk: "take (Suc i) selected = take i selected @ [?x]"
    using i by (rule take_Suc_conv_app_nth)
  let ?f1 = "\<lambda>r :: 'a EnhancementResult. r\<lparr>result_status := Processing\<rparr>"
  let ?f2 = "finish_result s (try_enhance s ext sf ?x)"
  have r1: "set_result (vocab_id ?x) ?f1 (results st) = ?A @ ?f1 (pending_result ?x) # ?B"
    unfolding st by (rule set_result_middle [OF A B result_id_pending])
  have r2: "set_result (vocab_id ?x) ?f2 (?A @ ?f1 (pending_result ?x) # ?B) =
            ?A @ ?f2 (?f1 (pending_result ?x)) # ?B"
    by (rule set_result_middle [OF A B]) (simp add: result_id_pending)
  have r3: "?f2 (?f1 (pending_result ?x)) = final_result s ext sf ?x"
    by (simp add: finish_result_def final_result_def split: sum.splits)
  have "results (loop_body s ext sf selected i st) = ?A @ final_result s ext sf ?x # ?B"
    unfolding loop_body_results_eq r1 r2 r3 ..
  with tk show ?thesis by simp
qed

lemma enhance_loop_results:
  "distinct (map vocab_id selected) \<Longrightarrow> i \<le> length selected \<Longrightarrow>
   results st = map (final_result s ext sf) (take i selected) @
                map pending_result (drop i selected) \<Longrightarrow>
   results (enhance_loop s ext sf selected i st) = map (final_result s ext sf) selected"
proof (induction s ext sf selected i st rule: enhance_loop.induct)
  case (1 s ext sf selected i st)
  show ?case
  proof (cases "i < length selected")
    case True
    from loop_body_results [OF "1.prems"(1) True "1.prems"(3)]
    have "results (loop_body s ext sf selected i st) =
           map (final_result s ext sf) (take (i + 1) selected) @
           map pending_result (drop (i + 1) selected)" by simp
    with "1.IH" [OF True "1.prems"(1)] True show ?thesis
      by (subst enhance_loop.simps) simp
  next
    case False
    with "1.prems" show ?thesis by (subst enhance_loop.simps) simp
  qed
qed

lemma one_failure_counts:
  assumes j: "j < length xs" and bad: "P (xs ! j)"
    and good: "\<forall>i < length xs. i \<noteq> j \<longrightarrow> \<not> P (xs ! i)"
  shows "length (filter P xs) = 1" and "length (filter (\<lambda>x. \<not> P x) xs) = length xs - 1"
proof -
  have split: "xs = take j xs @ xs ! j # drop (Suc j) xs"
    using j by (rule id_take_nth_drop)
  have a: "filter P (take j xs) = []"
  proof -
    have "\<not> P x" if "x \<in> set (take j xs)" for x
    proof -
      from that obtain i where "i < length (take j xs)" "take j xs ! i = x"
        by (auto simp add: in_set_conv_nth)
      with j good show ?thesis by auto
    qed
    then show ?thesis by (simp add: filter_empty_conv)
  qed
  have b: "filter P (drop (Suc j) xs) = []"
  proof -
    have "\<not> P x" if "x \<in> set (drop (Suc j) xs)" for x
    proof -
      from that obtain i where i: "i < length (drop (Suc j) xs)" "drop (Suc j) xs ! i = x"
        by (auto simp add: in_set_conv_nth)
      then have "x = xs ! (Suc j + i)" "Suc j + i < length xs" by auto
      with good show ?thesis by auto
    qed
    then show ?thesis by (simp add: filter_empty_conv)
  qed
  have "filter P xs = filter P (take j xs @ xs ! j # drop (Suc j) xs)"
    using split by simp
  with a b bad show one: "length (filter P xs) = 1" by simp
  from sum_length_filter_compl [of P xs] one
  show "length (filter (\<lambda>x. \<not> P x) xs) = length xs - 1" by simp
qed

lemma handleEnhanceSelected_nonempty:
  assumes "selectedVocabs \<noteq> {}"
    and "selected = filter (\<lambda>v. vocab_id v \<in> selectedVocabs) vocabs"
    and "st0 = st\<lparr>isProcessing := True, progress := (0, length selected),
                    results := map pending_result selected,
                    successCount := 0, errorCount := 0\<rparr>"
    and "st1 = enhance_loop s ext sf selected 0 st0"
  shows "handleEnhanceSelected s ext sf vocabs selectedVocabs st =
           st1\<lparr>isProcessing := False,
               effects := effects st1 @
                 [InvalidateQueries, Summary (successCount st1) (errorCount st1)]\<rparr>"
  unfolding handleEnhanceSelected_def Let_def assms(2-4) using assms(1) by (simp only: if_False)

lemma cleanup_braces: "cleanup ''{}'' = ''{}''"
  by code_simp

lemma demo_selected:
  "filter (\<lambda>v. vocab_id v \<in> {''1'', ''2'', ''3''}) demo_vocabularies = demo_vocabularies"
  by (simp add: demo_vocabularies_def complete_noun_def bare_noun_def)

lemma demo_ids: "map vocab_id demo_vocabularies = [''1'', ''2'', ''3'']"
  by (simp add: demo_vocabularies_def complete_noun_def bare_noun_def)

lemma below_three: "i < 3 \<Longrightarrow> i = 0 \<or> i = 1 \<or> i = (2::nat)"
  by arith

lemma demo_nth:
  "vocab_id (demo_vocabularies ! 0) = ''1''" "vocab_id (demo_vocabularies ! 1) = ''2''"
  "vocab_id (demo_vocabularies ! 2) = ''3''"
  by (simp_all add: demo_vocabularies_def complete_noun_def bare_noun_def)

text \<open>
  C7: a batch over the selected records, whatever the collaborators answer, attempts each
  selected record once, in order, and suspends after each attempt but the last, always for
  the studio's delay: 500 ms in the OpenAI studio, 1000 ms in the Gemini studio. Over k
  records these are k - 1 suspensions (none when no record is selected by the ids).
\<close>

theorem fixed_delay_between_records:
  assumes "selectedVocabs \<noteq> {}"
    and "selected = filter (\<lambda>v. vocab_id v \<in> selectedVocabs) vocabs"
    and "final = handleEnhanceSelected s ext sf vocabs selectedVocabs st"
  shows "(\<exists>succeeded failed.
            effects final =
              effects st @ schedule (delay_ms s) (map vocab_id selected) @
              [InvalidateQueries, Summary succeeded failed]) \<and>
         sleeps (effects final) =
           sleeps (effects st) @ replicate (length selected - 1) (delay_ms s) \<and>
         attempts (effects final) = attempts (effects st) @ map vocab_id selected \<and>
         delay_ms OpenAiStudio = 500 \<and> delay_ms GeminiStudio = 1000"
proof -
  define st0 where "st0 = st\<lparr>isProcessing := True, progress := (0, length selected),
                    results := map pending_result selected,
                    successCount := 0, errorCount := 0\<rparr>"
  define st1 where "st1 = enhance_loop s ext sf selected 0 st0"
  have fin: "final = st1\<lparr>isProcessing := False,
               effects := effects st1 @
                 [InvalidateQueries, Summary (successCount st1) (errorCount st1)]\<rparr>"
    unfolding assms(3) by (rule handleEnhanceSelected_nonempty [OF assms(1,2) st0_def st1_def])
  have e1: "effects st1 = effects st @ schedule (delay_ms s) (map vocab_id selected)"
    unfolding st1_def using enhance_loop_effects [of s ext sf selected 0 st0]
    by (simp add: st0_def)
  have eff: "effects final = effects st @ schedule (delay_ms s) (map vocab_id selected) @
              [InvalidateQueries, Summary (successCount st1) (errorCount st1)]"
    by (simp add: fin e1)
  have sl: "sleeps (effects final) =
           sleeps (effects st) @ replicate (length selected - 1) (delay_ms s)"
    by (simp add: eff sleeps_append sleeps_schedule)
  have at: "attempts (effects final) = attempts (effects st) @ map vocab_id selected"
    by (simp add: eff attempts_append attempts_schedule)
  have d: "delay_ms OpenAiStudio = 500" "delay_ms GeminiStudio = 1000"
    by (simp_all add: delay_ms_def)
  from eff sl at d show ?thesis by blast
qed

theorem fixed_delay_between_records_witness:
  "sleeps (effects (handleEnhanceSelected OpenAiStudio (demo_externals [''2''] []) [''all'']
      demo_vocabularies {''1'', ''2'', ''3''} idle_state)) = [500, 500] \<and>
   sleeps (effects (handleEnhanceSelected GeminiStudio (demo_externals [] [''1'', ''3'']) [''all'']
      demo_vocabularies {''1'', ''2'', ''3''} idle_state)) = [1000, 1000] \<and>
   attempts (effects (handleEnhanceSelected OpenAiStudio (demo_externals [''2''] []) [''all'']
      demo_vocabularies {''1'', ''2'', ''3''} idle_state)) = [''1'', ''2'', ''3'']"
proof -
  have ne: "{''1'', ''2'', ''3''} \<noteq> ({} :: string set)" by simp
  have k: "length demo_vocabularies = 3" by (simp add: demo_vocabularies_def)
  have idle: "effects idle_state = []" by (simp add: idle_state_def)
  have r3: "replicate 2 d = [d, d]" for d :: nat
    by (simp add: numeral_2_eq_2)
  note a = fixed_delay_between_records [OF ne demo_selected [symmetric] refl,
      of OpenAiStudio "demo_externals [''2''] []" "[''all'']" idle_state]
  note b = fixed_delay_between_records [OF ne demo_selected [symmetric] refl,
      of GeminiStudio "demo_externals [] [''1'', ''3'']" "[''all'']" idle_state]
  from a b show ?thesis
    by (simp add: k idle r3 demo_ids delay_ms_def)
qed

text \<open>
  The two causes of failure decide the outcome of the \<open>try\<close> block in both studios: with
  either of them the block throws, and with neither it completes with the data of the
  enrichment.
\<close>

lemma try_openai_outcome:
  "enrichment_error OpenAiStudio ext sf v \<or> store_update_error OpenAiStudio ext sf v \<Longrightarrow>
     isl (try_enhance OpenAiStudio ext sf v)"
  "\<not> enrichment_error OpenAiStudio ext sf v \<Longrightarrow> \<not> store_update_error OpenAiStudio ext sf v \<Longrightarrow>
     try_enhance OpenAiStudio ext sf v =
       Inr (stored_enhanced OpenAiStudio (update_data OpenAiStudio ext sf v))"
  by (auto simp add: try_enhance_def try_openai_def enhanceVocabulary_def enrichment_error_def
      store_update_error_def update_data_def stored_enhanced_def
      split: sum.splits option.splits if_splits)

lemma try_gemini_outcome:
  "enrichment_error GeminiStudio ext sf v \<or> store_update_error GeminiStudio ext sf v \<Longrightarrow>
     isl (try_enhance GeminiStudio ext sf v)"
  "\<not> enrichment_error GeminiStudio ext sf v \<Longrightarrow> \<not> store_update_error GeminiStudio ext sf v \<Longrightarrow>
     try_enhance GeminiStudio ext sf v =
       Inr (stored_enhanced GeminiStudio (update_data GeminiStudio ext sf v))"
  by (auto simp add: try_enhance_def try_gemini_def enrichment_error_def
      store_update_error_def update_data_def stored_enhanced_def Let_def
      split: sum.splits option.splits if_splits response_data.splits list.splits)

lemma try_enhance_fails:
  "enrichment_error s ext sf v \<or> store_update_error s ext sf v \<Longrightarrow> isl (try_enhance s ext sf v)"
  by (cases s) (simp_all add: try_openai_outcome(1) try_gemini_outcome(1))

lemma try_enhance_succeeds:
  "\<not> enrichment_error s ext sf v \<Longrightarrow> \<not> store_update_error s ext sf v \<Longrightarrow>
   try_enhance s ext sf v = Inr (stored_enhanced s (update_data s ext sf v))"
  by (cases s) (simp_all add: try_openai_outcome(2) try_gemini_outcome(2))

lemma final_result_status:
  "result_status (final_result s ext sf v) =
     (if isl (try_enhance s ext sf v) then Error else Success)"
  by (simp add: final_result_def split: sum.splits)

lemma demo_enrichment_error:
  "enrichment_error s (demo_externals unreachable rejected) [''all''] v =
     (vocab_id v \<in> set unreachable)"
  by (cases s)
    (simp_all add: enrichment_error_def demo_externals_def fieldsToEnhance_of_def
      js_not_str_def cleanup_braces)

lemma demo_update_data:
  "update_data s (demo_externals unreachable rejected) [''all''] v =
     (if vocab_id v \<in> set unreachable then None else Some ''{}'')"
  by (cases s)
    (simp_all add: update_data_def demo_externals_def fieldsToEnhance_of_def cleanup_braces)

lemma demo_store_update_error:
  "store_update_error s (demo_externals unreachable rejected) [''all''] v =
     (vocab_id v \<notin> set unreachable \<and> vocab_id v \<in> set rejected)"
  by (simp add: store_update_error_def demo_enrichment_error) (simp add: demo_externals_def)

text \<open>
  Claim C3, as stated, fails for a selection in which two records carry the same id: the
  results are rewritten by id, so the failure of the second record also marks the first
  one, which succeeded, as failed. In the run without the failure both end as succeeded.
\<close>

theorem shared_id_failure_counterexample:
  "map vocab_id twin_vocabularies = [''1'', ''1''] \<and>
   \<not> enrichment_error OpenAiStudio (demo_externals_by_word [''k2'']) [''all'']
       (twin_vocabularies ! 0) \<and>
   \<not> store_update_error OpenAiStudio (demo_externals_by_word [''k2'']) [''all'']
       (twin_vocabularies ! 0) \<and>
   enrichment_error OpenAiStudio (demo_externals_by_word [''k2'']) [''all'']
       (twin_vocabularies ! 1) \<and>
   successCount (handleEnhanceSelected OpenAiStudio (demo_externals_by_word [''k2''])
       [''all''] twin_vocabularies {''1''} idle_state) = 1 \<and>
   errorCount (handleEnhanceSelected OpenAiStudio (demo_externals_by_word [''k2''])
       [''all''] twin_vocabularies {''1''} idle_state) = 1 \<and>
   map result_status (results (handleEnhanceSelected OpenAiStudio
       (demo_externals_by_word [''k2'']) [''all''] twin_vocabularies {''1''} idle_state)) =
     [Error, Error] \<and>
   map result_status (results (handleEnhanceSelected OpenAiStudio
       (demo_externals_by_word []) [''all''] twin_vocabularies {''1''} idle_state)) =
     [Success, Success]"
  by code_simp

text \<open>
  C3 (amended): when exactly one selected record, the one at index j, fails (its enrichment
  fails, or its enrichment answers and the store rejects the update) and no other does, the
  batch still attempts all k records in input order and ends with the summary of k - 1
  successes and 1 error; the results keep the order of the selection, as they do in a run
  in which no record fails, which counts k successes. When the ids of the selected records
  are pairwise distinct, record j ends with status error and every other record with status
  success, its status in the run without failure; and the whole result of such a record is
  the same in both runs when the enrichment hands the same data to the store in both.
\<close>

theorem one_failure_does_not_stop_the_batch:
  assumes sel: "selected = filter (\<lambda>v. vocab_id v \<in> selectedVocabs) vocabs"
    and j: "j < length selected"
    and bad: "enrichment_error s ext sf (selected ! j) \<or>
              store_update_error s ext sf (selected ! j)"
    and good: "\<forall>i < length selected. i \<noteq> j \<longrightarrow>
        \<not> enrichment_error s ext sf (selected ! i) \<and>
        \<not> store_update_error s ext sf (selected ! i)"
    and final: "final = handleEnhanceSelected s ext sf vocabs selectedVocabs st"
    and all_good: "\<forall>i < length selected.
        \<not> enrichment_error s ext' sf (selected ! i) \<and>
        \<not> store_update_error s ext' sf (selected ! i)"
    and final': "final' = handleEnhanceSelected s ext' sf vocabs selectedVocabs st"
  shows "successCount final = length selected - 1 \<and> errorCount final = 1 \<and>
         effects final =
           effects st @ schedule (delay_ms s) (map vocab_id selected) @
           [InvalidateQueries, Summary (length selected - 1) 1] \<and>
         attempts (effects final) = attempts (effects st) @ map vocab_id selected \<and>
         \<not> isProcessing final \<and>
         map result_id (results final) = map vocab_id selected \<and>
         map result_id (results final') = map vocab_id selected \<and>
         successCount final' = length selected \<and> errorCount final' = 0 \<and>
         (distinct (map vocab_id selected) \<longrightarrow>
            (\<forall>i < length selected.
               result_status (results final ! i) = (if i = j then Error else Success) \<and>
               result_status (results final' ! i) = Success \<and>
               (i \<noteq> j \<and>
                update_data s ext' sf (selected ! i) = update_data s ext sf (selected ! i) \<longrightarrow>
                  results final ! i = results final' ! i)))"
proof -
  from j sel have ne: "selectedVocabs \<noteq> {}" by auto
  define st0 where "st0 = st\<lparr>isProcessing := True, progress := (0, length selected),
                    results := map pending_result selected,
                    successCount := 0, errorCount := 0\<rparr>"
  define st1 where "st1 = enhance_loop s ext sf selected 0 st0"
  define st1' where "st1' = enhance_loop s ext' sf selected 0 st0"
  have fin: "final = st1\<lparr>isProcessing := False,
               effects := effects st1 @
                 [InvalidateQueries, Summary (successCount st1) (errorCount st1)]\<rparr>"
    unfolding final by (rule handleEnhanceSelected_nonempty [OF ne sel st0_def st1_def])
  have fin': "final' = st1'\<lparr>isProcessing := False,
               effects := effects st1' @
                 [InvalidateQueries, Summary (successCount st1') (errorCount st1')]\<rparr>"
    unfolding final' by (rule handleEnhanceSelected_nonempty [OF ne sel st0_def st1'_def])
  have thrown_j: "isl (try_enhance s ext sf (selected ! j))"
    using bad by (rule try_enhance_fails)
  have done_i: "try_enhance s ext sf (selected ! i) =
      Inr (stored_enhanced s (update_data s ext sf (selected ! i)))"
    if "i < length selected" "i \<noteq> j" for i
    using good that by (intro try_enhance_succeeds) blast+
  have done_i': "try_enhance s ext' sf (selected ! i) =
      Inr (stored_enhanced s (update_data s ext' sf (selected ! i)))"
    if "i < length selected" for i
    using all_good that by (intro try_enhance_succeeds) blast+
  have others: "\<forall>i < length selected. i \<noteq> j \<longrightarrow> \<not> isl (try_enhance s ext sf (selected ! i))"
    using done_i by simp
  have none': "filter (\<lambda>v. isl (try_enhance s ext' sf v)) selected = []"
  proof -
    have "\<not> isl (try_enhance s ext' sf v)" if "v \<in> set selected" for v
    proof -
      from that obtain i where "i < length selected" "selected ! i = v"
        by (auto simp add: in_set_conv_nth)
      with done_i' [of i] show ?thesis by auto
    qed
    then show ?thesis by (simp add: filter_empty_conv)
  qed
  have counts: "successCount st1 = length selected - 1" "errorCount st1 = 1"
    using enhance_loop_counts [of s ext sf selected 0 st0]
      one_failure_counts [of j selected "\<lambda>v. isl (try_enhance s ext sf v)", OF j thrown_j others]
    by (simp_all add: st1_def st0_def)
  have counts': "successCount st1' = length selected" "errorCount st1' = 0"
    using enhance_loop_counts [of s ext' sf selected 0 st0] none'
      sum_length_filter_compl [of "\<lambda>v. isl (try_enhance s ext' sf v)" selected]
    by (simp_all add: st1'_def st0_def)
  have e1: "effects st1 = effects st @ schedule (delay_ms s) (map vocab_id selected)"
    unfolding st1_def using enhance_loop_effects [of s ext sf selected 0 st0]
    by (simp add: st0_def)
  have eff: "effects final =
           effects st @ schedule (delay_ms s) (map vocab_id selected) @
           [InvalidateQueries, Summary (length selected - 1) 1]"
    by (simp add: fin e1 counts)
  have at: "attempts (effects final) = attempts (effects st) @ map vocab_id selected"
    by (simp add: eff attempts_append attempts_schedule)
  have ids: "map result_id (results final) = map vocab_id selected"
    "map result_id (results final') = map vocab_id selected"
    using enhance_loop_result_ids [of s ext sf selected 0 st0]
      enhance_loop_result_ids [of s ext' sf selected 0 st0]
    by (simp_all add: fin fin' st1_def st1'_def st0_def comp_def result_id_pending)
  have per_record: "\<forall>i < length selected.
               result_status (results final ! i) = (if i = j then Error else Success) \<and>
               result_status (results final' ! i) = Success \<and>
               (i \<noteq> j \<and>
                update_data s ext' sf (selected ! i) = update_data s ext sf (selected ! i) \<longrightarrow>
                  results final ! i = results final' ! i)"
    if dist: "distinct (map vocab_id selected)"
  proof -
    have inv0: "results st0 = map (final_result s ext sf) (take 0 selected) @
                              map pending_result (drop 0 selected)"
      "results st0 = map (final_result s ext' sf) (take 0 selected) @
                              map pending_result (drop 0 selected)"
      by (simp_all add: st0_def)
    have r: "results final = map (final_result s ext sf) selected"
      using enhance_loop_results [OF dist _ inv0(1)] by (simp add: fin st1_def)
    have r': "results final' = map (final_result s ext' sf) selected"
      using enhance_loop_results [OF dist _ inv0(2)] by (simp add: fin' st1'_def)
    show ?thesis
    proof (intro allI impI)
      fix i
      assume i: "i < length selected"
      have a: "result_status (results final ! i) = (if i = j then Error else Success)"
        using i thrown_j others by (simp add: r final_result_status)
      have b: "result_status (results final' ! i) = Success"
        using i done_i' [OF i] by (simp add: r' final_result_status)
      have c: "i \<noteq> j \<and>
          update_data s ext' sf (selected ! i) = update_data s ext sf (selected ! i) \<longrightarrow>
          results final ! i = results final' ! i"
        using i done_i [OF i] done_i' [OF i] by (simp add: r r' final_result_def)
      from a b c
      show "result_status (results final ! i) = (if i = j then Error else Success) \<and>
            result_status (results final' ! i) = Success \<and>
            (i \<noteq> j \<and>
             update_data s ext' sf (selected ! i) = update_data s ext sf (selected ! i) \<longrightarrow>
               results final ! i = results final' ! i)"
        by blast
    qed
  qed
  have np: "\<not> isProcessing final" by (simp add: fin)
  have sc: "successCount final = length selected - 1" "errorCount final = 1"
    by (simp_all add: fin counts)
  have sc': "successCount final' = length selected" "errorCount final' = 0"
    by (simp_all add: fin' counts')
  from sc eff at np ids sc' per_record show ?thesis by blast
qed

theorem one_failure_does_not_stop_the_batch_witness:
  "enrichment_error OpenAiStudio (demo_externals [''2''] []) [''all''] (demo_vocabularies ! 1) \<and>
   store_update_error GeminiStudio (demo_externals [] [''2'']) [''all'']
      (demo_vocabularies ! 1) \<and>
   distinct (map vocab_id demo_vocabularies) \<and>
   successCount (handleEnhanceSelected OpenAiStudio (demo_externals [''2''] []) [''all'']
      demo_vocabularies {''1'', ''2'', ''3''} idle_state) = 2 \<and>
   errorCount (handleEnhanceSelected OpenAiStudio (demo_externals [''2''] []) [''all'']
      demo_vocabularies {''1'', ''2'', ''3''} idle_state) = 1 \<and>
   result_status (results (handleEnhanceSelected OpenAiStudio (demo_externals [''2''] [])
      [''all''] demo_vocabularies {''1'', ''2'', ''3''} idle_state) ! 0) = Success \<and>
   result_status (results (handleEnhanceSelected OpenAiStudio (demo_externals [''2''] [])
      [''all''] demo_vocabularies {''1'', ''2'', ''3''} idle_state) ! 1) = Error \<and>
   result_status (results (handleEnhanceSelected OpenAiStudio (demo_externals [''2''] [])
      [''all''] demo_vocabularies {''1'', ''2'', ''3''} idle_state) ! 2) = Success \<and>
   results (handleEnhanceSelected OpenAiStudio (demo_externals [''2''] [])
      [''all''] demo_vocabularies {''1'', ''2'', ''3''} idle_state) ! 2 =
   results (handleEnhanceSelected OpenAiStudio (demo_externals [] [])
      [''all''] demo_vocabularies {''1'', ''2'', ''3''} idle_state) ! 2 \<and>
   successCount (handleEnhanceSelected GeminiStudio (demo_externals [] [''2'']) [''all'']
      demo_vocabularies {''1'', ''2'', ''3''} idle_state) = 2 \<and>
   errorCount (handleEnhanceSelected GeminiStudio (demo_externals [] [''2'']) [''all'']
      demo_vocabularies {''1'', ''2'', ''3''} idle_state) = 1 \<and>
   result_status (results (handleEnhanceSelected GeminiStudio (demo_externals [] [''2''])
      [''all''] demo_vocabularies {''1'', ''2'', ''3''} idle_state) ! 0) = Success \<and>
   result_status (results (handleEnhanceSelected GeminiStudio (demo_externals [] [''2''])
      [''all''] demo_vocabularies {''1'', ''2'', ''3''} idle_state) ! 1) = Error \<and>
   result_status (results (handleEnhanceSelected GeminiStudio (demo_externals [] [''2''])
      [''all''] demo_vocabularies {''1'', ''2'', ''3''} idle_state) ! 2) = Success \<and>
   results (handleEnhanceSelected GeminiStudio (demo_externals [] [''2''])
      [''all''] demo_vocabularies {''1'', ''2'', ''3''} idle_state) ! 0 =
   results (handleEnhanceSelected GeminiStudio (demo_externals [] [])
      [''all''] demo_vocabularies {''1'', ''2'', ''3''} idle_state) ! 0 \<and>
   store_update_error OpenAiStudio (demo_externals [] [''2'']) [''all'']
      (demo_vocabularies ! 1) \<and>
   successCount (handleEnhanceSelected OpenAiStudio (demo_externals [] [''2'']) [''all'']
      demo_vocabularies {''1'', ''2'', ''3''} idle_state) = 2 \<and>
   errorCount (handleEnhanceSelected OpenAiStudio (demo_externals [] [''2'']) [''all'']
      demo_vocabularies {''1'', ''2'', ''3''} idle_state) = 1 \<and>
   enrichment_error GeminiStudio (demo_externals [''2''] []) [''all'']
      (demo_vocabularies ! 1) \<and>
   successCount (handleEnhanceSelected GeminiStudio (demo_externals [''2''] []) [''all'']
      demo_vocabularies {''1'', ''2'', ''3''} idle_state) = 2 \<and>
   errorCount (handleEnhanceSelected GeminiStudio (demo_externals [''2''] []) [''all'']
      demo_vocabularies {''1'', ''2'', ''3''} idle_state) = 1"
proof -
  let ?unreachable = "demo_externals [''2''] [] :: string externals"
  let ?rejecting = "demo_externals [] [''2''] :: string externals"
  let ?ext' = "demo_externals [] [] :: string externals"
  let ?ids = "{''1'', ''2'', ''3''} :: string set"
  have k: "length demo_vocabularies = 3" by (simp add: demo_vocabularies_def)
  have i0: "0 < length demo_vocabularies" and j: "1 < length demo_vocabularies"
    and i2: "2 < length demo_vocabularies"
    by (simp_all add: k)
  have dist: "distinct (map vocab_id demo_vocabularies)" by (simp add: demo_ids)
  have bad1: "enrichment_error OpenAiStudio ?unreachable [''all''] (demo_vocabularies ! 1)"
    unfolding demo_enrichment_error demo_nth by simp
  have bad2: "store_update_error GeminiStudio ?rejecting [''all''] (demo_vocabularies ! 1)"
    unfolding demo_store_update_error demo_nth by simp
  have good: "\<forall>i < length demo_vocabularies. i \<noteq> 1 \<longrightarrow>
      \<not> enrichment_error s (demo_externals u r) [''all''] (demo_vocabularies ! i) \<and>
      \<not> store_update_error s (demo_externals u r) [''all''] (demo_vocabularies ! i)"
    if "set u \<subseteq> {''2''}" "set r \<subseteq> {''2''}" for s :: studio and u r
  proof (intro allI impI)
    fix i assume "i < length demo_vocabularies" "i \<noteq> 1"
    then have "i = 0 \<or> i = 2" using below_three [of i] by (simp add: k)
    with that
    show "\<not> enrichment_error s (demo_externals u r) [''all''] (demo_vocabularies ! i) \<and>
          \<not> store_update_error s (demo_externals u r) [''all''] (demo_vocabularies ! i)"
      unfolding demo_enrichment_error demo_store_update_error using demo_nth by auto
  qed
  have all_good: "\<forall>i < length demo_vocabularies.
      \<not> enrichment_error s ?ext' [''all''] (demo_vocabularies ! i) \<and>
      \<not> store_update_error s ?ext' [''all''] (demo_vocabularies ! i)" for s :: studio
    by (simp add: demo_enrichment_error demo_store_update_error)
  have same: "update_data s ?ext' [''all''] (demo_vocabularies ! i) =
              update_data s (demo_externals u r) [''all''] (demo_vocabularies ! i)"
    if "set u \<subseteq> {''2''}" "i = 0 \<or> i = 2" for s :: studio and u r i
    using that unfolding demo_update_data using demo_nth by auto
  have good1: "\<forall>i < length demo_vocabularies. i \<noteq> 1 \<longrightarrow>
      \<not> enrichment_error OpenAiStudio ?unreachable [''all''] (demo_vocabularies ! i) \<and>
      \<not> store_update_error OpenAiStudio ?unreachable [''all''] (demo_vocabularies ! i)"
    by (rule good) simp_all
  have good2: "\<forall>i < length demo_vocabularies. i \<noteq> 1 \<longrightarrow>
      \<not> enrichment_error GeminiStudio ?rejecting [''all''] (demo_vocabularies ! i) \<and>
      \<not> store_update_error GeminiStudio ?rejecting [''all''] (demo_vocabularies ! i)"
    by (rule good) simp_all
  have bad3: "store_update_error OpenAiStudio ?rejecting [''all''] (demo_vocabularies ! 1)"
    unfolding demo_store_update_error demo_nth by simp
  have bad4: "enrichment_error GeminiStudio ?unreachable [''all''] (demo_vocabularies ! 1)"
    unfolding demo_enrichment_error demo_nth by simp
  have good3: "\<forall>i < length demo_vocabularies. i \<noteq> 1 \<longrightarrow>
      \<not> enrichment_error OpenAiStudio ?rejecting [''all''] (demo_vocabularies ! i) \<and>
      \<not> store_update_error OpenAiStudio ?rejecting [''all''] (demo_vocabularies ! i)"
    by (rule good) simp_all
  have good4: "\<forall>i < length demo_vocabularies. i \<noteq> 1 \<longrightarrow>
      \<not> enrichment_error GeminiStudio ?unreachable [''all''] (demo_vocabularies ! i) \<and>
      \<not> store_update_error GeminiStudio ?unreachable [''all''] (demo_vocabularies ! i)"
    by (rule good) simp_all
  note c = one_failure_does_not_stop_the_batch [OF demo_selected [symmetric] j disjI2 [OF bad3]
      good3 refl all_good refl, of idle_state]
  note d = one_failure_does_not_stop_the_batch [OF demo_selected [symmetric] j disjI1 [OF bad4]
      good4 refl all_good refl, of idle_state]
  from c have cc: "successCount (handleEnhanceSelected OpenAiStudio ?rejecting [''all'']
      demo_vocabularies ?ids idle_state) = 2"
    "errorCount (handleEnhanceSelected OpenAiStudio ?rejecting [''all'']
      demo_vocabularies ?ids idle_state) = 1"
    by (simp_all add: k)
  from d have cd: "successCount (handleEnhanceSelected GeminiStudio ?unreachable [''all'']
      demo_vocabularies ?ids idle_state) = 2"
    "errorCount (handleEnhanceSelected GeminiStudio ?unreachable [''all'']
      demo_vocabularies ?ids idle_state) = 1"
    by (simp_all add: k)
  note a = one_failure_does_not_stop_the_batch [OF demo_selected [symmetric] j disjI1 [OF bad1]
      good1 refl all_good refl, of idle_state]
  note b = one_failure_does_not_stop_the_batch [OF demo_selected [symmetric] j disjI2 [OF bad2]
      good2 refl all_good refl, of idle_state]
  from a have ca: "successCount (handleEnhanceSelected OpenAiStudio ?unreachable [''all'']
      demo_vocabularies ?ids idle_state) = 2"
    "errorCount (handleEnhanceSelected OpenAiStudio ?unreachable [''all'']
      demo_vocabularies ?ids idle_state) = 1"
    by (simp_all add: k)
  from b have cb: "successCount (handleEnhanceSelected GeminiStudio ?rejecting [''all'']
      demo_vocabularies ?ids idle_state) = 2"
    "errorCount (handleEnhanceSelected GeminiStudio ?rejecting [''all'']
      demo_vocabularies ?ids idle_state) = 1"
    by (simp_all add: k)
  from a dist have pa: "\<forall>i < length demo_vocabularies.
      result_status (results (handleEnhanceSelected OpenAiStudio ?unreachable [''all'']
        demo_vocabularies ?ids idle_state) ! i) =
        (if i = 1 then Error else Success) \<and>
      result_status (results (handleEnhanceSelected OpenAiStudio ?ext' [''all'']
        demo_vocabularies ?ids idle_state) ! i) = Success \<and>
      (i \<noteq> 1 \<and>
       update_data OpenAiStudio ?ext' [''all''] (demo_vocabularies ! i) =
       update_data OpenAiStudio ?unreachable [''all''] (demo_vocabularies ! i) \<longrightarrow>
        results (handleEnhanceSelected OpenAiStudio ?unreachable [''all'']
          demo_vocabularies ?ids idle_state) ! i =
        results (handleEnhanceSelected OpenAiStudio ?ext' [''all'']
          demo_vocabularies ?ids idle_state) ! i)"
    by blast
  from b dist have pb: "\<forall>i < length demo_vocabularies.
      result_status (results (handleEnhanceSelected GeminiStudio ?rejecting [''all'']
        demo_vocabularies ?ids idle_state) ! i) =
        (if i = 1 then Error else Success) \<and>
      result_status (results (handleEnhanceSelected GeminiStudio ?ext' [''all'']
        demo_vocabularies ?ids idle_state) ! i) = Success \<and>
      (i \<noteq> 1 \<and>
       update_data GeminiStudio ?ext' [''all''] (demo_vocabularies ! i) =
       update_data GeminiStudio ?rejecting [''all''] (demo_vocabularies ! i) \<longrightarrow>
        results (handleEnhanceSelected GeminiStudio ?rejecting [''all'']
          demo_vocabularies ?ids idle_state) ! i =
        results (handleEnhanceSelected GeminiStudio ?ext' [''all'']
          demo_vocabularies ?ids idle_state) ! i)"
    by blast
  have sa2: "update_data OpenAiStudio ?ext' [''all''] (demo_vocabularies ! 2) =
       update_data OpenAiStudio ?unreachable [''all''] (demo_vocabularies ! 2)"
    by (rule same) simp_all
  have sb0: "update_data GeminiStudio ?ext' [''all''] (demo_vocabularies ! 0) =
       update_data GeminiStudio ?rejecting [''all''] (demo_vocabularies ! 0)"
    by (rule same) simp_all
  from pa i0 have a0: "result_status (results (handleEnhanceSelected OpenAiStudio ?unreachable
      [''all''] demo_vocabularies ?ids idle_state) ! 0) = Success"
    by fastforce
  from pa j have a1: "result_status (results (handleEnhanceSelected OpenAiStudio ?unreachable
      [''all''] demo_vocabularies ?ids idle_state) ! 1) = Error"
    by fastforce
  from pa i2 have a2: "result_status (results (handleEnhanceSelected OpenAiStudio ?unreachable
      [''all''] demo_vocabularies ?ids idle_state) ! 2) = Success"
    by fastforce
  from pa i2 sa2 have ea: "results (handleEnhanceSelected OpenAiStudio ?unreachable
      [''all''] demo_vocabularies ?ids idle_state) ! 2 =
      results (handleEnhanceSelected OpenAiStudio ?ext'
      [''all''] demo_vocabularies ?ids idle_state) ! 2"
    by fastforce
  from pb i0 have b0: "result_status (results (handleEnhanceSelected GeminiStudio ?rejecting
      [''all''] demo_vocabularies ?ids idle_state) ! 0) = Success"
    by fastforce
  from pb j have b1: "result_status (results (handleEnhanceSelected GeminiStudio ?rejecting
      [''all''] demo_vocabularies ?ids idle_state) ! 1) = Error"
    by fastforce
  from pb i2 have b2: "result_status (results (handleEnhanceSelected GeminiStudio ?rejecting
      [''all''] demo_vocabularies ?ids idle_state) ! 2) = Success"
    by fastforce
  from pb i0 sb0 have eb: "results (handleEnhanceSelected GeminiStudio ?rejecting
      [''all''] demo_vocabularies ?ids idle_state) ! 0 =
      results (handleEnhanceSelected GeminiStudio ?ext'
      [''all''] demo_vocabularies ?ids idle_state) ! 0"
    by fastforce
  from bad1 bad2 dist ca a0 a1 a2 ea cb b0 b1 b2 eb bad3 cc bad4 cd show ?thesis by blast
qed

end
